theory Spec2Isabelle
  imports Complex_Main
begin

section \<open>Errors\<close>

text \<open>
  The exceptions the module can meet. \<open>ZeroDivisionError\<close> is Python's own (the true
  division \<open>/\<close> of two ints with a zero divisor); \<open>RuntimeError\<close> is what the tensor library
  raises on operands whose shapes do not fit. \<open>ConfigurationError\<close> and
  \<open>ShapeMismatchError\<close> are the two kinds of the specification's error taxonomy; no
  function of \<^verbatim>\<open>encoders.py\<close> constructs either of them.
\<close>

datatype error = ZeroDivisionError | RuntimeError | ConfigurationError | ShapeMismatchError

section \<open>Shape arithmetic\<close>

text \<open>
  \<^verbatim>\<open>kernel_size: Union[int, Tuple[int, int]]\<close>: a single int stands for both axes.
\<close>

datatype kernel_size = KInt int | KTuple int int

text \<open>
  \<^verbatim>\<open>if not isinstance(kernel_size, tuple): kernel_size = (int(kernel_size), int(kernel_size))\<close>.
  The body applies \<^verbatim>\<open>kernel_size[0]\<close> to the height \<^verbatim>\<open>h_w[0]\<close> and \<^verbatim>\<open>kernel_size[1]\<close> to the
  width (its docstring names the tuple \<^verbatim>\<open>[width, height]\<close>); the model follows the body.
\<close>

fun kernel_pair :: "kernel_size \<Rightarrow> int \<times> int" where
  "kernel_pair (KInt k) = (k, k)"
| "kernel_pair (KTuple k0 k1) = (k0, k1)"

text \<open>
  One axis of \<^verbatim>\<open>conv_output_shape\<close>:
  \<^verbatim>\<open>floor(((h_w[i] + (2 * padding) - (dilation * (kernel_size[i] - 1)) - 1) / stride) + 1)\<close>.
  Python's \<^verbatim>\<open>/\<close> on ints is the true quotient, a float; it is taken here in exact
  arithmetic, which agrees with the float for integers of the size of image dimensions.
\<close>

definition conv_axis :: "int \<Rightarrow> int \<Rightarrow> int \<Rightarrow> int \<Rightarrow> int \<Rightarrow> int" where
  "conv_axis size_in k stride padding dilation =
     \<lfloor>(real_of_int (size_in + (2 * padding) - (dilation * (k - 1)) - 1) / real_of_int stride) + 1\<rfloor>"

text \<open>
  \<^verbatim>\<open>conv_output_shape(h_w, kernel_size=1, stride=1, padding=0, dilation=1)\<close>. The only
  exception the body can raise is the \<^verbatim>\<open>ZeroDivisionError\<close> of \<^verbatim>\<open>/ stride\<close>; there is no check
  of the sign of the result.
\<close>

definition conv_output_shape ::
  "int \<times> int \<Rightarrow> kernel_size \<Rightarrow> int \<Rightarrow> int \<Rightarrow> int \<Rightarrow> error + int \<times> int" where
  "conv_output_shape h_w kernel_size stride padding dilation =
     (let ks = kernel_pair kernel_size in
      if stride = 0 then Inl ZeroDivisionError
      else Inr (conv_axis (fst h_w) (fst ks) stride padding dilation,
                conv_axis (snd h_w) (snd ks) stride padding dilation))"

text \<open>
  \<^verbatim>\<open>pool_out_shape(h_w, kernel_size)\<close>: Python's \<^verbatim>\<open>//\<close> is floor division, which is \<open>div\<close>
  on \<open>int\<close>. The divisor is the literal 2, so nothing can be raised.
\<close>

definition pool_out_shape :: "int \<times> int \<Rightarrow> int \<Rightarrow> int \<times> int" where
  "pool_out_shape h_w kernel_size =
     (let height = (fst h_w - kernel_size) div 2 + 1;
          width = (snd h_w - kernel_size) div 2 + 1
      in (height, width))"

section \<open>Layers\<close>

text \<open>
  The layer objects the constructors build, as descriptors with the constructor
  arguments of the source: \<^verbatim>\<open>nn.Conv2d(in, out, kernel, stride, padding=p)\<close>,
  \<^verbatim>\<open>nn.MaxPool2d(kernel, stride)\<close>, \<^verbatim>\<open>nn.LeakyReLU()\<close>, \<^verbatim>\<open>Swish()\<close> and the module's own
  \<^verbatim>\<open>ResNetBlock\<close>, which holds its \<^verbatim>\<open>self.layers\<close>. Weights are not part of the model.
\<close>

datatype layer =
    Conv2d int int "int \<times> int" "int \<times> int" int
  | MaxPool2d "int \<times> int" "int \<times> int"
  | LeakyReLU
  | Swish
  | ResNetBlock "layer list"

text \<open>\<^verbatim>\<open>ResNetBlock.__init__(channel)\<close>\<close>

definition ResNetBlock_init :: "int \<Rightarrow> layer" where
  "ResNetBlock_init channel =
     ResNetBlock [Swish, Conv2d channel channel (3, 3) (1, 1) 1,
                  Swish, Conv2d channel channel (3, 3) (1, 1) 1]"

section \<open>Visual encoders\<close>

record visual_encoder =
  h_size :: int
  final_flat :: int
  conv_layers :: "layer list"

text \<open>
  \<^verbatim>\<open>SimpleVisualEncoder.__init__(height, width, initial_channels, output_size)\<close>. An
  exception of \<^verbatim>\<open>conv_output_shape\<close> would leave the constructor.
\<close>

definition SimpleVisualEncoder_init :: "int \<Rightarrow> int \<Rightarrow> int \<Rightarrow> int \<Rightarrow> error + visual_encoder" where
  "SimpleVisualEncoder_init height width initial_channels output_size =
     (case conv_output_shape (height, width) (KInt 8) 4 0 1 of
        Inl e \<Rightarrow> Inl e
      | Inr conv_1_hw \<Rightarrow>
          (case conv_output_shape conv_1_hw (KInt 4) 2 0 1 of
             Inl e \<Rightarrow> Inl e
           | Inr conv_2_hw \<Rightarrow>
               Inr \<lparr>h_size = output_size,
                    final_flat = fst conv_2_hw * snd conv_2_hw * 32,
                    conv_layers =
                      [Conv2d initial_channels 16 (8, 8) (4, 4) 0, LeakyReLU,
                       Conv2d 16 32 (4, 4) (2, 2) 0, LeakyReLU]\<rparr>))"

text \<open>\<^verbatim>\<open>NatureVisualEncoder.__init__(height, width, initial_channels, output_size)\<close>\<close>

definition NatureVisualEncoder_init :: "int \<Rightarrow> int \<Rightarrow> int \<Rightarrow> int \<Rightarrow> error + visual_encoder" where
  "NatureVisualEncoder_init height width initial_channels output_size =
     (case conv_output_shape (height, width) (KInt 8) 4 0 1 of
        Inl e \<Rightarrow> Inl e
      | Inr conv_1_hw \<Rightarrow>
          (case conv_output_shape conv_1_hw (KInt 4) 2 0 1 of
             Inl e \<Rightarrow> Inl e
           | Inr conv_2_hw \<Rightarrow>
               (case conv_output_shape conv_2_hw (KInt 3) 1 0 1 of
                  Inl e \<Rightarrow> Inl e
                | Inr conv_3_hw \<Rightarrow>
                    Inr \<lparr>h_size = output_size,
                         final_flat = fst conv_3_hw * snd conv_3_hw * 64,
                         conv_layers =
                           [Conv2d initial_channels 32 (8, 8) (4, 4) 0, LeakyReLU,
                            Conv2d 32 64 (4, 4) (2, 2) 0, LeakyReLU,
                            Conv2d 64 64 (3, 3) (1, 1) 0, LeakyReLU]\<rparr>)))"

text \<open>\<^verbatim>\<open>output_size(self)\<close> of both encoders: \<^verbatim>\<open>return self.final_flat\<close>.\<close>

definition SimpleVisualEncoder_output_size :: "visual_encoder \<Rightarrow> int" where
  "SimpleVisualEncoder_output_size self = final_flat self"

definition NatureVisualEncoder_output_size :: "visual_encoder \<Rightarrow> int" where
  "NatureVisualEncoder_output_size self = final_flat self"

text \<open>The fields \<^verbatim>\<open>self._output_size\<close> and \<^verbatim>\<open>self.sequential\<close>.\<close>

record resnet_visual_encoder =
  private_output_size :: int
  sequential :: "layer list"

text \<open>
  The loop variables of \<^verbatim>\<open>ResNetVisualEncoder.__init__\<close>:
  \<^verbatim>\<open>layers\<close>, \<^verbatim>\<open>last_channel\<close>, \<^verbatim>\<open>height\<close>, \<^verbatim>\<open>width\<close>.
\<close>

record resnet_loop_state =
  layers :: "layer list"
  last_channel :: int
  height :: int
  width :: int

text \<open>
  One round of \<^verbatim>\<open>for _, channel in enumerate(n_channels)\<close>, with \<^verbatim>\<open>n_blocks\<close> residual
  blocks appended by the inner loop.
\<close>

definition resnet_stage :: "nat \<Rightarrow> resnet_loop_state \<Rightarrow> int \<Rightarrow> resnet_loop_state" where
  "resnet_stage n_blocks st channel =
     (let hw = pool_out_shape (height st, width st) 3 in
      \<lparr>layers = layers st
                  @ [Conv2d (last_channel st) channel (3, 3) (1, 1) 1, MaxPool2d (3, 3) (2, 2)]
                  @ replicate n_blocks (ResNetBlock_init channel),
       last_channel = channel,
       height = fst hw,
       width = snd hw\<rparr>)"

text \<open>\<^verbatim>\<open>ResNetVisualEncoder.__init__(height, width, initial_channels)\<close>\<close>

definition ResNetVisualEncoder_init :: "int \<Rightarrow> int \<Rightarrow> int \<Rightarrow> resnet_visual_encoder" where
  "ResNetVisualEncoder_init height0 width0 initial_channels =
     (let n_channels = [16, 32, 32];
          n_blocks = 2;
          st = foldl (resnet_stage n_blocks)
                 \<lparr>layers = [], last_channel = initial_channels, height = height0, width = width0\<rparr>
                 n_channels
      in \<lparr>private_output_size = last n_channels * height st * width st,
          sequential = layers st @ [Swish]\<rparr>)"

text \<open>\<^verbatim>\<open>ResNetVisualEncoder.output_size(self)\<close>: \<^verbatim>\<open>return self._output_size\<close>.\<close>

definition ResNetVisualEncoder_output_size :: "resnet_visual_encoder \<Rightarrow> int" where
  "ResNetVisualEncoder_output_size self = private_output_size self"

section \<open>Shapes through the layers\<close>

text \<open>
  What \<^verbatim>\<open>ResNetBlock.forward\<close> does to the shape \<open>(N, C, H, W)\<close> of its input. The layers
  themselves belong to the tensor library; their effect on a shape is the documented one
  of \<^verbatim>\<open>torch.nn.Conv2d\<close> and \<^verbatim>\<open>torch.nn.MaxPool2d\<close> (dilation 1) for positive kernel sizes:
  a convolution raises \<^verbatim>\<open>RuntimeError\<close> when the input's channel count is not its
  \<^verbatim>\<open>in_channels\<close>, when the padded input is smaller than the kernel, or when a stride is not
  positive or the padding negative, and otherwise maps each spatial axis as
  \<^verbatim>\<open>conv_output_shape\<close> does; a pooling raises when the input is smaller than the window.
\<close>

type_synonym shape = "int \<times> int \<times> int \<times> int"

definition conv2d_axis :: "int \<Rightarrow> int \<Rightarrow> int \<Rightarrow> int \<Rightarrow> int" where
  "conv2d_axis size_in k s p = (size_in + 2 * p - (k - 1) - 1) div s + 1"

text \<open>One axis of the broadcasting of \<^verbatim>\<open>a + b\<close>: equal sizes, or one of them 1.\<close>

definition broadcast_dim :: "int \<Rightarrow> int \<Rightarrow> int option" where
  "broadcast_dim a b =
     (if a = b then Some a else if a = 1 then Some b else if b = 1 then Some a else None)"

fun add_shape :: "shape \<Rightarrow> shape \<Rightarrow> error + shape" where
  "add_shape (n, c, h, w) (n', c', h', w') =
     (case (broadcast_dim n n', broadcast_dim c c', broadcast_dim h h', broadcast_dim w w') of
        (Some n'', Some c'', Some h'', Some w'') \<Rightarrow> Inr (n'', c'', h'', w'')
      | _ \<Rightarrow> Inl RuntimeError)"

text \<open>
  Modelled from the spec: \<^verbatim>\<open>Swish\<close> is imported from \<^verbatim>\<open>mlagents.trainers.torch.layers\<close>, which
  is not among the sources; the specification gives it as the elementwise
  \<open>x * sigmoid(x)\<close>, so it returns the shape it is given.
\<close>

definition Swish_forward :: "shape \<Rightarrow> error + shape" where
  "Swish_forward x = Inr x"

text \<open>
  \<^verbatim>\<open>nn.Sequential\<close> applies its layers in order; \<^verbatim>\<open>ResNetBlock.forward\<close> is
  \<^verbatim>\<open>return input_tensor + self.layers(input_tensor)\<close>, with no check of its own.
  \<^verbatim>\<open>nn.LeakyReLU\<close> is elementwise.
\<close>

fun layer_forward :: "layer \<Rightarrow> shape \<Rightarrow> error + shape"
  and Sequential_forward :: "layer list \<Rightarrow> shape \<Rightarrow> error + shape" where
  "layer_forward (Conv2d c_in c_out (kh, kw) (sh, sw) p) (n, c, h, w) =
     (if sh < 1 \<or> sw < 1 \<or> p < 0 \<or> c \<noteq> c_in \<or> h + 2 * p < kh \<or> w + 2 * p < kw
      then Inl RuntimeError
      else Inr (n, c_out, conv2d_axis h kh sh p, conv2d_axis w kw sw p))"
| "layer_forward (MaxPool2d (kh, kw) (sh, sw)) (n, c, h, w) =
     (if sh < 1 \<or> sw < 1 \<or> h < kh \<or> w < kw then Inl RuntimeError
      else Inr (n, c, conv2d_axis h kh sh 0, conv2d_axis w kw sw 0))"
| "layer_forward LeakyReLU x = Inr x"
| "layer_forward Swish x = Swish_forward x"
| "layer_forward (ResNetBlock ls) input_tensor =
     (case Sequential_forward ls input_tensor of
        Inl e \<Rightarrow> Inl e
      | Inr y \<Rightarrow> add_shape input_tensor y)"
| "Sequential_forward [] x = Inr x"
| "Sequential_forward (l # ls) x =
     (case layer_forward l x of
        Inl e \<Rightarrow> Inl e
      | Inr y \<Rightarrow> Sequential_forward ls y)"

section \<open>Tensors of observations\<close>

text \<open>
  A vector observation buffer is a list of numbers, a batch is the list of its rows (the
  first axis). This section and the next are the normalizer in exact arithmetic: real
  buffers and an unbounded step count, with no rounding, no infinity and no NaN. The
  program's own arithmetic, 32-bit floats and a 64-bit counter, follows in a section of
  its own, and every theorem says which of the two it is about.
\<close>

type_synonym vector = "real list"
type_synonym batch = "real list list"

text \<open>
  Broadcasting of an \<open>n \<times> k\<close> batch against a buffer of length \<open>d\<close>, where the result must
  again have width \<open>d\<close>: \<open>k = d\<close>, or \<open>k = 1\<close> and the single column is repeated.
\<close>

definition broadcastable :: "nat \<Rightarrow> 'a list list \<Rightarrow> bool" where
  "broadcastable d b = list_all (\<lambda>row. length row = d \<or> length row = 1) b"

definition expand :: "nat \<Rightarrow> 'a list \<Rightarrow> 'a list" where
  "expand d row = (if length row = d then row else replicate d (hd row))"

text \<open>\<^verbatim>\<open>batch - vector\<close>, the vector subtracted from every row.\<close>

definition bsub :: "batch \<Rightarrow> vector \<Rightarrow> batch" where
  "bsub b v = map (\<lambda>row. map2 (-) row v) b"

text \<open>\<^verbatim>\<open>batch / vector\<close>, every row divided elementwise.\<close>

definition bdiv :: "batch \<Rightarrow> vector \<Rightarrow> batch" where
  "bdiv b v = map (\<lambda>row. map2 (/) row v) b"

text \<open>\<^verbatim>\<open>batch / scalar\<close> and \<^verbatim>\<open>vector / scalar\<close>\<close>

definition bdiv_scalar :: "batch \<Rightarrow> real \<Rightarrow> batch" where
  "bdiv_scalar b c = map (map (\<lambda>x. x / c)) b"

definition vdiv_scalar :: "vector \<Rightarrow> real \<Rightarrow> vector" where
  "vdiv_scalar v c = map (\<lambda>x. x / c) v"

text \<open>\<^verbatim>\<open>batch * batch\<close> of equal shapes, and \<^verbatim>\<open>vector + vector\<close>\<close>

definition bmul :: "batch \<Rightarrow> batch \<Rightarrow> batch" where
  "bmul a b = map2 (map2 (*)) a b"

definition vadd :: "vector \<Rightarrow> vector \<Rightarrow> vector" where
  "vadd u v = map2 (+) u v"

text \<open>\<^verbatim>\<open>.sum(0)\<close> of a batch with \<open>d\<close> columns: the sum of the rows, zeros for no row.\<close>

definition sum0 :: "nat \<Rightarrow> batch \<Rightarrow> vector" where
  "sum0 d b = foldl (map2 (+)) (replicate d 0) b"

text \<open>\<^verbatim>\<open>torch.clamp(x, min, max)\<close> on one element.\<close>

definition clamp :: "real \<Rightarrow> real \<Rightarrow> real \<Rightarrow> real" where
  "clamp x lo hi = min (max x lo) hi"

text \<open>
  \<^verbatim>\<open>dst.copy_(src)\<close> on one-dimensional buffers: the source must have the length of the
  destination or length 1 (then it is broadcast); anything else raises.
\<close>

definition tensor_copy :: "vector \<Rightarrow> vector \<Rightarrow> vector option" where
  "tensor_copy dst src =
     (if length src = length dst then Some src
      else if length src = 1 then Some (replicate (length dst) (hd src))
      else None)"

section \<open>Normalizer\<close>

record normalizer =
  normalization_steps :: int
  running_mean :: vector
  running_variance :: vector

text \<open>
  \<^verbatim>\<open>Normalizer.__init__(vec_obs_size)\<close>; \<^verbatim>\<open>torch.zeros\<close> of a negative size raises.
\<close>

definition Normalizer_init :: "int \<Rightarrow> error + normalizer" where
  "Normalizer_init vec_obs_size =
     (if vec_obs_size < 0 then Inl RuntimeError
      else Inr \<lparr>normalization_steps = 1,
                running_mean = replicate (nat vec_obs_size) 0,
                running_variance = replicate (nat vec_obs_size) 1\<rparr>)"

text \<open>
  The value \<^verbatim>\<open>Normalizer.forward\<close> computes,
  \<^verbatim>\<open>torch.clamp((inputs - self.running_mean) / torch.sqrt(self.running_variance / self.normalization_steps), -5, 5)\<close>.
  With buffers of length 1 every width of the input broadcasts.
\<close>

definition normalized_state :: "normalizer \<Rightarrow> batch \<Rightarrow> error + batch" where
  "normalized_state self inputs =
     (let d = length (running_mean self);
          scale = map sqrt (vdiv_scalar (running_variance self)
                                        (real_of_int (normalization_steps self)))
      in if d = 1 then
           Inr (map (map (\<lambda>x. clamp ((x - hd (running_mean self)) / hd scale) (- 5) 5)) inputs)
         else if \<not> broadcastable d inputs then Inl RuntimeError
         else Inr (map (map (\<lambda>x. clamp x (- 5) 5))
                     (bdiv (bsub (map (expand d) inputs) (running_mean self)) scale)))"

text \<open>
  \<^verbatim>\<open>forward\<close> as a method of the object: the result and the object after the call. The
  body assigns to no buffer.
\<close>

definition forward :: "normalizer \<Rightarrow> batch \<Rightarrow> error + batch \<times> normalizer" where
  "forward self inputs =
     (case normalized_state self inputs of
        Inl e \<Rightarrow> Inl e
      | Inr out \<Rightarrow> Inr (out, self))"

text \<open>
  \<^verbatim>\<open>Normalizer.update(vector_input)\<close>. The batch must broadcast against the buffers to
  their own width, or the subtraction or the first \<^verbatim>\<open>copy_\<close> raises; no exception can follow
  a write, so a failed call leaves the object as it was and a successful one has written
  all three buffers. Torch's float division does not raise on a zero divisor.
\<close>

definition update :: "normalizer \<Rightarrow> batch \<Rightarrow> error + normalizer" where
  "update self vector_input =
     (let d = length (running_mean self) in
      if \<not> broadcastable d vector_input then Inl RuntimeError
      else
        let rows = map (expand d) vector_input;
            steps_increment = int (length vector_input);
            total_new_steps = normalization_steps self + steps_increment;
            input_to_old_mean = bsub rows (running_mean self);
            new_mean = vadd (running_mean self)
                         (sum0 d (bdiv_scalar input_to_old_mean (real_of_int total_new_steps)));
            input_to_new_mean = bsub rows new_mean;
            new_variance = vadd (running_variance self)
                             (sum0 d (bmul input_to_new_mean input_to_old_mean))
        in Inr \<lparr>normalization_steps = total_new_steps,
                running_mean = new_mean,
                running_variance = new_variance\<rparr>)"

text \<open>
  \<^verbatim>\<open>Normalizer.copy_from(other_normalizer)\<close>: three \<^verbatim>\<open>copy_\<close> calls in the order steps, mean,
  variance. The second or third can raise after the earlier ones have written, so the
  result is the exception, if any, with the object as the call left it.
\<close>

definition copy_from :: "normalizer \<Rightarrow> normalizer \<Rightarrow> error option \<times> normalizer" where
  "copy_from self other_normalizer =
     (let s1 = self\<lparr>normalization_steps := normalization_steps other_normalizer\<rparr> in
      case tensor_copy (running_mean s1) (running_mean other_normalizer) of
        None \<Rightarrow> (Some RuntimeError, s1)
      | Some m \<Rightarrow>
          (let s2 = s1\<lparr>running_mean := m\<rparr> in
           case tensor_copy (running_variance s2) (running_variance other_normalizer) of
             None \<Rightarrow> (Some RuntimeError, s2)
           | Some v \<Rightarrow> (None, s2\<lparr>running_variance := v\<rparr>)))"

text \<open>Several \<^verbatim>\<open>update\<close> calls one after the other, stopping at the first exception.\<close>

fun updates :: "normalizer \<Rightarrow> batch list \<Rightarrow> error + normalizer" where
  "updates self [] = Inr self"
| "updates self (b # bs) =
     (case update self b of
        Inl e \<Rightarrow> Inl e
      | Inr self' \<Rightarrow> updates self' bs)"

text \<open>
  The states a \<^verbatim>\<open>Normalizer\<close> object can be in: as constructed, after an \<^verbatim>\<open>update\<close> that
  returned, and after a \<^verbatim>\<open>copy_from\<close> (returned or raised) from another such object.
\<close>

inductive reachable :: "normalizer \<Rightarrow> bool" where
  reachable_init: "Normalizer_init vec_obs_size = Inr s \<Longrightarrow> reachable s"
| reachable_update: "reachable s \<Longrightarrow> update s b = Inr s' \<Longrightarrow> reachable s'"
| reachable_copy: "reachable s \<Longrightarrow> reachable t \<Longrightarrow> copy_from s t = (e, s') \<Longrightarrow> reachable s'"

text \<open>
  An \<open>n \<times> d\<close> batch: every row has \<open>d\<close> entries. The object's two buffers have one length
  (they are created with one size and only ever written by \<^verbatim>\<open>copy_\<close>).
\<close>

definition batch_shaped :: "nat \<Rightarrow> 'a list list \<Rightarrow> bool" where
  "batch_shaped d b = list_all (\<lambda>row. length row = d) b"

definition obs_size :: "normalizer \<Rightarrow> nat" where
  "obs_size s = length (running_mean s)"

definition buffers_ok :: "normalizer \<Rightarrow> bool" where
  "buffers_ok s \<longleftrightarrow> length (running_variance s) = length (running_mean s)"

text \<open>Column \<open>j\<close> of a batch: the \<open>j\<close>-th feature of every sample.\<close>

definition col :: "nat \<Rightarrow> batch \<Rightarrow> real list" where
  "col j b = map (\<lambda>row. row ! j) b"

text \<open>
  The update rule on one feature, in the words of the specification: with \<open>N\<close> the new
  step count, \<open>m\<close> the old mean, \<open>v\<close> the old sum of squared deviations and \<open>xs\<close> the
  feature's values in the batch, \<open>newMean = mean + sum((batch - mean) / newTotal)\<close> and
  \<open>newSumSqDev = sumSqDev + sum((batch - newMean) * (batch - mean))\<close>.
\<close>

definition welford_mean :: "real \<Rightarrow> real \<Rightarrow> real list \<Rightarrow> real" where
  "welford_mean N m xs = m + (\<Sum>x\<leftarrow>xs. (x - m) / N)"

definition welford_ssd :: "real \<Rightarrow> real \<Rightarrow> real \<Rightarrow> real list \<Rightarrow> real" where
  "welford_ssd N m v xs = v + (\<Sum>x\<leftarrow>xs. (x - welford_mean N m xs) * (x - m))"

text \<open>
  The data model of the statistics: a step count of at least 1, two buffers of one length,
  no negative sum of squared deviations.
\<close>

definition stats_inv :: "normalizer \<Rightarrow> bool" where
  "stats_inv s \<longleftrightarrow>
     1 \<le> normalization_steps s \<and> buffers_ok s \<and> list_all (\<lambda>v. 0 \<le> v) (running_variance s)"

section \<open>The normalizer in the program's own arithmetic\<close>

text \<open>
  The buffers of the source hold 32-bit floats and the step counter is a 64-bit integer
  tensor. A float is a finite real, an infinity or NaN. The rounding of a real result to
  the 24 significant bits of the format is a parameter \<open>rnd\<close> of every operation (the
  program rounds to nearest); what the model fixes is everything around it: a rounded
  result beyond the largest finite float becomes an infinity, invalid operations give NaN,
  and NaN spreads through every operation. A finite zero carries no sign here, and a zero
  divisor counts as \<open>+0\<close>.
\<close>

datatype f32 = Fin real | PInf | NInf | NaN

text \<open>The largest finite 32-bit float, \<open>(2 - 2^-23) * 2^127\<close>.\<close>

definition f32_max :: real where
  "f32_max = (2 ^ 24 - 1) * 2 ^ 104"

text \<open>A real result as a float: rounded, then checked against the range.\<close>

definition fl :: "(real \<Rightarrow> real) \<Rightarrow> real \<Rightarrow> f32" where
  "fl rnd r = (let y = rnd r in
               if f32_max < y then PInf else if y < - f32_max then NInf else Fin y)"

text \<open>The arithmetic of IEEE 754 on these values.\<close>

fun fneg :: "f32 \<Rightarrow> f32" where
  "fneg (Fin x) = Fin (- x)"
| "fneg PInf = NInf"
| "fneg NInf = PInf"
| "fneg NaN = NaN"

fun fadd :: "(real \<Rightarrow> real) \<Rightarrow> f32 \<Rightarrow> f32 \<Rightarrow> f32" where
  "fadd rnd (Fin x) (Fin y) = fl rnd (x + y)"
| "fadd rnd NaN b = NaN"
| "fadd rnd a NaN = NaN"
| "fadd rnd PInf NInf = NaN"
| "fadd rnd NInf PInf = NaN"
| "fadd rnd PInf b = PInf"
| "fadd rnd a PInf = PInf"
| "fadd rnd NInf b = NInf"
| "fadd rnd a NInf = NInf"

definition fsub :: "(real \<Rightarrow> real) \<Rightarrow> f32 \<Rightarrow> f32 \<Rightarrow> f32" where
  "fsub rnd a b = fadd rnd a (fneg b)"

text \<open>The infinity of a given sign, for products and quotients.\<close>

definition inf_of_sign :: "bool \<Rightarrow> f32" where
  "inf_of_sign negative = (if negative then NInf else PInf)"

fun fmul :: "(real \<Rightarrow> real) \<Rightarrow> f32 \<Rightarrow> f32 \<Rightarrow> f32" where
  "fmul rnd (Fin x) (Fin y) = fl rnd (x * y)"
| "fmul rnd NaN b = NaN"
| "fmul rnd a NaN = NaN"
| "fmul rnd (Fin x) PInf = (if x = 0 then NaN else inf_of_sign (x < 0))"
| "fmul rnd (Fin x) NInf = (if x = 0 then NaN else inf_of_sign (0 < x))"
| "fmul rnd PInf (Fin y) = (if y = 0 then NaN else inf_of_sign (y < 0))"
| "fmul rnd NInf (Fin y) = (if y = 0 then NaN else inf_of_sign (0 < y))"
| "fmul rnd PInf PInf = PInf"
| "fmul rnd NInf NInf = PInf"
| "fmul rnd PInf NInf = NInf"
| "fmul rnd NInf PInf = NInf"

fun fdiv :: "(real \<Rightarrow> real) \<Rightarrow> f32 \<Rightarrow> f32 \<Rightarrow> f32" where
  "fdiv rnd (Fin x) (Fin y) =
     (if y = 0 then (if x = 0 then NaN else inf_of_sign (x < 0)) else fl rnd (x / y))"
| "fdiv rnd NaN b = NaN"
| "fdiv rnd a NaN = NaN"
| "fdiv rnd (Fin x) PInf = Fin 0"
| "fdiv rnd (Fin x) NInf = Fin 0"
| "fdiv rnd PInf (Fin y) = inf_of_sign (y < 0)"
| "fdiv rnd NInf (Fin y) = inf_of_sign (0 \<le> y)"
| "fdiv rnd PInf b = NaN"
| "fdiv rnd NInf b = NaN"

fun fsqrt :: "(real \<Rightarrow> real) \<Rightarrow> f32 \<Rightarrow> f32" where
  "fsqrt rnd (Fin x) = (if x < 0 then NaN else fl rnd (sqrt x))"
| "fsqrt rnd PInf = PInf"
| "fsqrt rnd NInf = NaN"
| "fsqrt rnd NaN = NaN"

text \<open>
  \<^verbatim>\<open>torch.clamp(x, min, max)\<close> on a float: infinities are clamped to the bounds, NaN stays
  NaN.
\<close>

fun fclamp :: "f32 \<Rightarrow> real \<Rightarrow> real \<Rightarrow> f32" where
  "fclamp (Fin x) lo hi = Fin (min (max x lo) hi)"
| "fclamp PInf lo hi = Fin hi"
| "fclamp NInf lo hi = Fin lo"
| "fclamp NaN lo hi = NaN"

text \<open>The comparison \<open>\<le>\<close> of floats; every comparison with NaN is false.\<close>

fun f32_le :: "f32 \<Rightarrow> f32 \<Rightarrow> bool" where
  "f32_le (Fin x) (Fin y) \<longleftrightarrow> x \<le> y"
| "f32_le NaN b \<longleftrightarrow> False"
| "f32_le a NaN \<longleftrightarrow> False"
| "f32_le NInf b \<longleftrightarrow> True"
| "f32_le a PInf \<longleftrightarrow> True"
| "f32_le PInf b \<longleftrightarrow> False"
| "f32_le a NInf \<longleftrightarrow> False"

text \<open>Addition on the 64-bit counter wraps around.\<close>

definition wrap64 :: "int \<Rightarrow> int" where
  "wrap64 i = (i + 2 ^ 63) mod 2 ^ 64 - 2 ^ 63"

text \<open>
  The tensor operations of the exact model, on floats; \<^verbatim>\<open>.sum(0)\<close> adds the rows in order.
\<close>

definition bsub_f32 :: "(real \<Rightarrow> real) \<Rightarrow> f32 list list \<Rightarrow> f32 list \<Rightarrow> f32 list list" where
  "bsub_f32 rnd b v = map (\<lambda>row. map2 (fsub rnd) row v) b"

definition bdiv_f32 :: "(real \<Rightarrow> real) \<Rightarrow> f32 list list \<Rightarrow> f32 list \<Rightarrow> f32 list list" where
  "bdiv_f32 rnd b v = map (\<lambda>row. map2 (fdiv rnd) row v) b"

definition bdiv_scalar_f32 :: "(real \<Rightarrow> real) \<Rightarrow> f32 list list \<Rightarrow> f32 \<Rightarrow> f32 list list" where
  "bdiv_scalar_f32 rnd b c = map (map (\<lambda>x. fdiv rnd x c)) b"

definition vdiv_scalar_f32 :: "(real \<Rightarrow> real) \<Rightarrow> f32 list \<Rightarrow> f32 \<Rightarrow> f32 list" where
  "vdiv_scalar_f32 rnd v c = map (\<lambda>x. fdiv rnd x c) v"

definition bmul_f32 :: "(real \<Rightarrow> real) \<Rightarrow> f32 list list \<Rightarrow> f32 list list \<Rightarrow> f32 list list" where
  "bmul_f32 rnd a b = map2 (map2 (fmul rnd)) a b"

definition vadd_f32 :: "(real \<Rightarrow> real) \<Rightarrow> f32 list \<Rightarrow> f32 list \<Rightarrow> f32 list" where
  "vadd_f32 rnd u v = map2 (fadd rnd) u v"

definition sum0_f32 :: "(real \<Rightarrow> real) \<Rightarrow> nat \<Rightarrow> f32 list list \<Rightarrow> f32 list" where
  "sum0_f32 rnd d b = foldl (map2 (fadd rnd)) (replicate d (Fin 0)) b"

text \<open>The object with a 64-bit counter and float buffers, and its constructor.\<close>

record normalizer_f32 =
  normalization_steps_i64 :: int
  running_mean_f32 :: "f32 list"
  running_variance_f32 :: "f32 list"

definition Normalizer_init_f32 :: "int \<Rightarrow> error + normalizer_f32" where
  "Normalizer_init_f32 vec_obs_size =
     (if vec_obs_size < 0 then Inl RuntimeError
      else Inr \<lparr>normalization_steps_i64 = 1,
                running_mean_f32 = replicate (nat vec_obs_size) (Fin 0),
                running_variance_f32 = replicate (nat vec_obs_size) (Fin 1)\<rparr>)"

text \<open>
  \<^verbatim>\<open>Normalizer.forward\<close> and \<^verbatim>\<open>Normalizer.update\<close> once more, operation by operation as in the
  exact model, in this arithmetic. The integer step count is converted to a float where it
  divides a float tensor.
\<close>

definition normalized_state_f32 ::
  "(real \<Rightarrow> real) \<Rightarrow> normalizer_f32 \<Rightarrow> f32 list list \<Rightarrow> error + f32 list list" where
  "normalized_state_f32 rnd self inputs =
     (let d = length (running_mean_f32 self);
          scale = map (fsqrt rnd)
                    (vdiv_scalar_f32 rnd (running_variance_f32 self)
                       (fl rnd (real_of_int (normalization_steps_i64 self))))
      in if d = 1 then
           Inr (map (map (\<lambda>x. fclamp (fdiv rnd (fsub rnd x (hd (running_mean_f32 self))) (hd scale))
                                  (- 5) 5)) inputs)
         else if \<not> broadcastable d inputs then Inl RuntimeError
         else Inr (map (map (\<lambda>x. fclamp x (- 5) 5))
                     (bdiv_f32 rnd (bsub_f32 rnd (map (expand d) inputs) (running_mean_f32 self))
                        scale)))"

definition forward_f32 ::
  "(real \<Rightarrow> real) \<Rightarrow> normalizer_f32 \<Rightarrow> f32 list list \<Rightarrow> error + f32 list list \<times> normalizer_f32" where
  "forward_f32 rnd self inputs =
     (case normalized_state_f32 rnd self inputs of
        Inl e \<Rightarrow> Inl e
      | Inr out \<Rightarrow> Inr (out, self))"

definition update_f32 ::
  "(real \<Rightarrow> real) \<Rightarrow> normalizer_f32 \<Rightarrow> f32 list list \<Rightarrow> error + normalizer_f32" where
  "update_f32 rnd self vector_input =
     (let d = length (running_mean_f32 self) in
      if \<not> broadcastable d vector_input then Inl RuntimeError
      else
        let rows = map (expand d) vector_input;
            steps_increment = int (length vector_input);
            total_new_steps = wrap64 (normalization_steps_i64 self + steps_increment);
            input_to_old_mean = bsub_f32 rnd rows (running_mean_f32 self);
            new_mean = vadd_f32 rnd (running_mean_f32 self)
                         (sum0_f32 rnd d
                            (bdiv_scalar_f32 rnd input_to_old_mean
                               (fl rnd (real_of_int total_new_steps))));
            input_to_new_mean = bsub_f32 rnd rows new_mean;
            new_variance = vadd_f32 rnd (running_variance_f32 self)
                             (sum0_f32 rnd d (bmul_f32 rnd input_to_new_mean input_to_old_mean))
        in Inr \<lparr>normalization_steps_i64 = total_new_steps,
                running_mean_f32 = new_mean,
                running_variance_f32 = new_variance\<rparr>)"


text \<open>The two float buffers have one length.\<close>

definition buffers32_ok :: "normalizer_f32 \<Rightarrow> bool" where
  "buffers32_ok s \<longleftrightarrow> length (running_variance_f32 s) = length (running_mean_f32 s)"

text \<open>
  The quotient \<open>(x - mean) / sqrt(sumSqDev / stepCount)\<close> of feature \<open>j\<close>, in floats.
\<close>

definition normalized_f32 :: "(real \<Rightarrow> real) \<Rightarrow> normalizer_f32 \<Rightarrow> nat \<Rightarrow> f32 \<Rightarrow> f32" where
  "normalized_f32 rnd s j x =
     fdiv rnd (fsub rnd x (running_mean_f32 s ! j))
       (fsqrt rnd (fdiv rnd (running_variance_f32 s ! j)
                     (fl rnd (real_of_int (normalization_steps_i64 s)))))"

section \<open>Shape arithmetic: theorems\<close>

text \<open>The floor of the true quotient is the floor division of the integers.\<close>

lemma conv_axis_div:
  "conv_axis size_in k stride padding dilation =
     (size_in + 2 * padding - dilation * (k - 1) - 1) div stride + 1"
proof -
  define a where "a = size_in + 2 * padding - dilation * (k - 1) - 1"
  have "\<lfloor>real_of_int a / real_of_int stride + 1\<rfloor> = \<lfloor>real_of_int a / real_of_int stride\<rfloor> + 1"
    by linarith
  also have "\<dots> = a div stride + 1"
    by (simp only: floor_divide_of_int_eq)
  finally show ?thesis
    unfolding conv_axis_def a_def .
qed

lemma floor_half: "\<lfloor>real_of_int a / 2\<rfloor> = a div 2"
  using floor_divide_of_int_eq [of a 2, where ?'a = real] by simp

lemma conv_axis_nonpos:
  assumes "0 < stride"
  shows "conv_axis size_in k stride padding dilation \<le> 0
           \<longleftrightarrow> size_in + 2 * padding - dilation * (k - 1) - 1 < 0"
proof -
  define a where "a = size_in + 2 * padding - dilation * (k - 1) - 1"
  have "a div stride + 1 \<le> 0 \<longleftrightarrow> a div stride < 0"
    by linarith
  also have "\<dots> \<longleftrightarrow> a < 0"
    using assms by (rule pos_imp_zdiv_neg_iff)
  finally show ?thesis
    unfolding conv_axis_div a_def .
qed

text \<open>
  Claim C5. With a stride other than zero \<^verbatim>\<open>conv_output_shape\<close> returns, for each of the
  two axes on its own, the floor of
  \<open>(size + 2 * padding - dilation * (kernel - 1) - 1) / stride + 1\<close>, the kernel being
  given per axis or as one int for both; that floor is the floor division of the two
  integers plus one. On \<open>(84, 84)\<close> with kernel 8 and stride 4
  (padding 0, dilation 1) the result is \<open>(20, 20)\<close>, and on \<open>(20, 20)\<close> with kernel 4 and
  stride 2 it is \<open>(9, 9)\<close>.
\<close>

theorem conv_output_shape_formula:
  "(stride \<noteq> 0 \<longrightarrow>
      conv_output_shape (h, w) (KTuple kh kw) stride padding dilation =
        Inr (\<lfloor>real_of_int (h + 2 * padding - dilation * (kh - 1) - 1) / real_of_int stride + 1\<rfloor>,
             \<lfloor>real_of_int (w + 2 * padding - dilation * (kw - 1) - 1) / real_of_int stride + 1\<rfloor>)
      \<and> conv_output_shape (h, w) (KInt k) stride padding dilation =
        Inr (\<lfloor>real_of_int (h + 2 * padding - dilation * (k - 1) - 1) / real_of_int stride + 1\<rfloor>,
             \<lfloor>real_of_int (w + 2 * padding - dilation * (k - 1) - 1) / real_of_int stride + 1\<rfloor>)
      \<and> \<lfloor>real_of_int (h + 2 * padding - dilation * (kh - 1) - 1) / real_of_int stride + 1\<rfloor> =
          (h + 2 * padding - dilation * (kh - 1) - 1) div stride + 1)
   \<and> conv_output_shape (84, 84) (KInt 8) 4 0 1 = Inr (20, 20)
   \<and> conv_output_shape (20, 20) (KInt 4) 2 0 1 = Inr (9, 9)"
proof -
  have "conv_output_shape (84, 84) (KInt 8) 4 0 1 = Inr (20, 20)"
    by (simp add: conv_output_shape_def conv_axis_div)
  moreover have "conv_output_shape (20, 20) (KInt 4) 2 0 1 = Inr (9, 9)"
    by (simp add: conv_output_shape_def conv_axis_div)
  moreover have "\<lfloor>real_of_int (h + 2 * padding - dilation * (kh - 1) - 1) / real_of_int stride + 1\<rfloor> =
      (h + 2 * padding - dilation * (kh - 1) - 1) div stride + 1"
    using conv_axis_div [of h kh stride padding dilation] by (simp only: conv_axis_def)
  ultimately show ?thesis
    by (simp add: conv_output_shape_def conv_axis_def)
qed

theorem conv_output_shape_formula_witness:
  "(4::int) \<noteq> 0 \<and> conv_output_shape (84, 64) (KTuple 8 4) 4 0 1 = Inr (20, 16)
   \<and> conv_output_shape (84, 64) (KInt 8) 4 0 1 = Inr (20, 15)"
  using conv_output_shape_formula
    [where stride = 4 and h = 84 and w = 64 and kh = 8 and kw = 4 and k = 8
       and padding = 0 and dilation = 1]
  by simp

text \<open>
  Claim C6, as stated: both functions fail whenever a computed axis size is not positive.
  They do not: a \<open>4 \<times> 4\<close> input under a kernel of 8 with stride 4 gives the sizes
  \<open>(0, 0)\<close>, and pooling a \<open>1 \<times> 1\<close> input with kernel 3 gives \<open>(0, 0)\<close>; both are
  returned.
\<close>

theorem shape_functions_return_nonpositive_sizes:
  "conv_output_shape (4, 4) (KInt 8) 4 0 1 = Inr (0, 0) \<and> pool_out_shape (1, 1) 3 = (0, 0)"
  by (simp add: conv_output_shape_def conv_axis_div pool_out_shape_def)

text \<open>
  Claim C6, amended. Neither function checks its result. \<^verbatim>\<open>conv_output_shape\<close> returns the
  pair of computed sizes for every stride other than zero and raises Python's
  \<^verbatim>\<open>ZeroDivisionError\<close> for stride zero; \<^verbatim>\<open>pool_out_shape\<close> returns its pair for every input.
  Sizes that are not positive are returned like any other: with a positive stride a size is
  \<open>\<le> 0\<close> exactly when \<open>size + 2 * padding - dilation * (kernel - 1) - 1\<close> is negative, and
  a pooled size is \<open>\<le> 0\<close> exactly when the input is smaller than the kernel.
\<close>

theorem shape_functions_do_not_validate:
  "conv_output_shape (h, w) ks 0 padding dilation = Inl ZeroDivisionError
   \<and> (stride \<noteq> 0 \<longrightarrow>
        conv_output_shape (h, w) ks stride padding dilation =
          Inr (conv_axis h (fst (kernel_pair ks)) stride padding dilation,
               conv_axis w (snd (kernel_pair ks)) stride padding dilation))
   \<and> (0 < stride \<longrightarrow>
        (conv_axis size_in k stride padding dilation \<le> 0
           \<longleftrightarrow> size_in + 2 * padding - dilation * (k - 1) - 1 < 0))
   \<and> (fst (pool_out_shape (h, w) k) \<le> 0 \<longleftrightarrow> h < k)
   \<and> (snd (pool_out_shape (h, w) k) \<le> 0 \<longleftrightarrow> w < k)"
proof -
  have "fst (pool_out_shape (h, w) k) \<le> 0 \<longleftrightarrow> h < k"
    by (simp add: pool_out_shape_def Let_def) linarith
  moreover have "snd (pool_out_shape (h, w) k) \<le> 0 \<longleftrightarrow> w < k"
    by (simp add: pool_out_shape_def Let_def) linarith
  moreover have "0 < stride \<longrightarrow>
        (conv_axis size_in k stride padding dilation \<le> 0
           \<longleftrightarrow> size_in + 2 * padding - dilation * (k - 1) - 1 < 0)"
    using conv_axis_nonpos by blast
  ultimately show ?thesis
    by (simp add: conv_output_shape_def Let_def)
qed

theorem shape_functions_do_not_validate_witness:
  "(0::int) < 4 \<and> conv_output_shape (4, 84) (KInt 8) 4 0 1 = Inr (0, 20)
   \<and> conv_axis 4 8 4 0 1 \<le> 0
   \<and> snd (pool_out_shape (4, 84) 8) > 0"
  using shape_functions_do_not_validate
    [where h = 4 and w = 84 and ks = "KInt 8" and padding = 0 and dilation = 1
       and stride = 4 and size_in = 4 and k = 8]
  by (simp add: conv_axis_div)

text \<open>
  Claim C7. \<^verbatim>\<open>pool_out_shape\<close> is \<open>floor((size - kernel) / 2) + 1\<close> on each axis. The output
  size of a \<^verbatim>\<open>ResNetVisualEncoder\<close> is 32 times the height times the width that three
  rounds of \<^verbatim>\<open>pool_out_shape\<close> with kernel 3 leave; from \<open>(84, 84)\<close> the rounds give
  \<open>(41, 41)\<close>, \<open>(20, 20)\<close> and \<open>(9, 9)\<close>, so the output size is \<open>32 * 9 * 9 = 2592\<close>,
  whatever the channel count of the input.
\<close>

theorem resnet_output_size_84:
  "pool_out_shape (h, w) k = (\<lfloor>real_of_int (h - k) / 2\<rfloor> + 1, \<lfloor>real_of_int (w - k) / 2\<rfloor> + 1)
   \<and> ResNetVisualEncoder_output_size (ResNetVisualEncoder_init h w c) =
       32 * fst (pool_out_shape (pool_out_shape (pool_out_shape (h, w) 3) 3) 3)
          * snd (pool_out_shape (pool_out_shape (pool_out_shape (h, w) 3) 3) 3)
   \<and> pool_out_shape (84, 84) 3 = (41, 41)
   \<and> pool_out_shape (41, 41) 3 = (20, 20)
   \<and> pool_out_shape (20, 20) 3 = (9, 9)
   \<and> ResNetVisualEncoder_output_size (ResNetVisualEncoder_init 84 84 c) = 32 * 9 * 9
   \<and> ResNetVisualEncoder_output_size (ResNetVisualEncoder_init 84 84 c) = 2592"
proof -
  have "pool_out_shape (h, w) k = (\<lfloor>real_of_int (h - k) / 2\<rfloor> + 1, \<lfloor>real_of_int (w - k) / 2\<rfloor> + 1)"
    by (simp only: floor_half pool_out_shape_def Let_def fst_conv snd_conv)
  moreover have "ResNetVisualEncoder_output_size (ResNetVisualEncoder_init h w c) =
     32 * fst (pool_out_shape (pool_out_shape (pool_out_shape (h, w) 3) 3) 3)
        * snd (pool_out_shape (pool_out_shape (pool_out_shape (h, w) 3) 3) 3)"
    by (simp add: ResNetVisualEncoder_output_size_def ResNetVisualEncoder_init_def
        resnet_stage_def Let_def)
  moreover have "pool_out_shape (84, 84) 3 = (41, 41)"
    by (simp add: pool_out_shape_def)
  moreover have "pool_out_shape (41, 41) 3 = (20, 20)"
    by (simp add: pool_out_shape_def)
  moreover have "pool_out_shape (20, 20) 3 = (9, 9)"
    by (simp add: pool_out_shape_def)
  moreover have "ResNetVisualEncoder_output_size (ResNetVisualEncoder_init 84 84 c) = 2592"
    by (simp add: ResNetVisualEncoder_output_size_def ResNetVisualEncoder_init_def
        resnet_stage_def pool_out_shape_def)
  ultimately show ?thesis
    by simp
qed

text \<open>
  Claim C8. Constructed with height and width 84, a \<^verbatim>\<open>SimpleVisualEncoder\<close> has output size
  \<open>9 * 9 * 32 = 2592\<close> (two chained \<^verbatim>\<open>conv_output_shape\<close> steps, 84 to 20 to 9) and a
  \<^verbatim>\<open>NatureVisualEncoder\<close> has \<open>7 * 7 * 64 = 3136\<close> (three steps, 84 to 20 to 9 to 7),
  for every \<^verbatim>\<open>initial_channels\<close> and every \<^verbatim>\<open>output_size\<close> argument; the constructors do not
  raise.
\<close>

theorem visual_encoder_output_size_84:
  "(\<exists>enc. SimpleVisualEncoder_init 84 84 initial_channels output_size_arg = Inr enc
          \<and> SimpleVisualEncoder_output_size enc = 9 * 9 * 32
          \<and> SimpleVisualEncoder_output_size enc = 2592)
   \<and> (\<exists>enc. NatureVisualEncoder_init 84 84 initial_channels output_size_arg = Inr enc
          \<and> NatureVisualEncoder_output_size enc = 7 * 7 * 64
          \<and> NatureVisualEncoder_output_size enc = 3136)
   \<and> conv_output_shape (84, 84) (KInt 8) 4 0 1 = Inr (20, 20)
   \<and> conv_output_shape (20, 20) (KInt 4) 2 0 1 = Inr (9, 9)
   \<and> conv_output_shape (9, 9) (KInt 3) 1 0 1 = Inr (7, 7)"
proof -
  have "\<exists>enc. SimpleVisualEncoder_init 84 84 initial_channels output_size_arg = Inr enc
         \<and> SimpleVisualEncoder_output_size enc = 9 * 9 * 32
         \<and> SimpleVisualEncoder_output_size enc = 2592"
    by (simp add: SimpleVisualEncoder_init_def SimpleVisualEncoder_output_size_def
        conv_output_shape_def conv_axis_div)
  moreover have "\<exists>enc. NatureVisualEncoder_init 84 84 initial_channels output_size_arg = Inr enc
         \<and> NatureVisualEncoder_output_size enc = 7 * 7 * 64
         \<and> NatureVisualEncoder_output_size enc = 3136"
    by (simp add: NatureVisualEncoder_init_def NatureVisualEncoder_output_size_def
        conv_output_shape_def conv_axis_div)
  moreover have "conv_output_shape (84, 84) (KInt 8) 4 0 1 = Inr (20, 20)"
    by (simp add: conv_output_shape_def conv_axis_div)
  moreover have "conv_output_shape (20, 20) (KInt 4) 2 0 1 = Inr (9, 9)"
    by (simp add: conv_output_shape_def conv_axis_div)
  moreover have "conv_output_shape (9, 9) (KInt 3) 1 0 1 = Inr (7, 7)"
    by (simp add: conv_output_shape_def conv_axis_div)
  ultimately show ?thesis
    by blast
qed

section \<open>The residual block: theorems\<close>

lemma conv2d_axis_same: "conv2d_axis size_in 3 1 1 = size_in"
  by (simp add: conv2d_axis_def)

lemma broadcast_dim_same: "broadcast_dim a a = Some a"
  by (simp add: broadcast_dim_def)

lemma resnet_block_layers_forward:
  "Sequential_forward [Swish, Conv2d channel channel (3, 3) (1, 1) 1,
                       Swish, Conv2d channel channel (3, 3) (1, 1) 1] (n, c, h, w) =
     (if c = channel \<and> 1 \<le> h \<and> 1 \<le> w then Inr (n, c, h, w) else Inl RuntimeError)"
  by (auto simp: conv2d_axis_same Swish_forward_def)

lemma resnet_block_forward:
  "layer_forward (ResNetBlock_init channel) (n, c, h, w) =
     (if c = channel \<and> 1 \<le> h \<and> 1 \<le> w then Inr (n, c, h, w) else Inl RuntimeError)"
  unfolding ResNetBlock_init_def layer_forward.simps(5) resnet_block_layers_forward
  by (simp add: broadcast_dim_same)

text \<open>
  Claim C9, as stated: \<^verbatim>\<open>forward\<close> of a residual block raises a \<open>ShapeMismatchError\<close> (a
  \<open>ConfigurationError\<close>) when the channel count of the input is not the block's. It does
  not: a block of 16 channels given an input of 3 channels fails inside the first
  convolution with the tensor library's \<^verbatim>\<open>RuntimeError\<close>, which leaves \<^verbatim>\<open>forward\<close> as it is.
\<close>

theorem resnet_block_raises_provider_error:
  "layer_forward (ResNetBlock_init 16) (1, 3, 84, 84) = Inl RuntimeError
   \<and> layer_forward (ResNetBlock_init 16) (1, 3, 84, 84) \<noteq> Inl ShapeMismatchError
   \<and> layer_forward (ResNetBlock_init 16) (1, 3, 84, 84) \<noteq> Inl ConfigurationError"
  by (simp add: resnet_block_forward)

text \<open>
  Claim C9, amended. \<^verbatim>\<open>ResNetBlock.forward\<close> has no shape check of its own and raises
  neither \<open>ShapeMismatchError\<close> nor \<open>ConfigurationError\<close>. For an input whose channel
  count is the block's (and whose height and width are at least 1) the output has the
  shape of the input; for an input with another channel count the convolution's
  \<^verbatim>\<open>RuntimeError\<close> propagates unchanged; and whenever \<^verbatim>\<open>forward\<close> returns, the shape returned
  is the shape of the input.
\<close>

theorem resnet_block_forward_shape:
  "(c = channel \<and> 1 \<le> h \<and> 1 \<le> w \<longrightarrow>
      layer_forward (ResNetBlock_init channel) (n, c, h, w) = Inr (n, c, h, w))
   \<and> (c \<noteq> channel \<longrightarrow>
      layer_forward (ResNetBlock_init channel) (n, c, h, w) = Inl RuntimeError)
   \<and> layer_forward (ResNetBlock_init channel) (n, c, h, w) \<noteq> Inl ShapeMismatchError
   \<and> layer_forward (ResNetBlock_init channel) (n, c, h, w) \<noteq> Inl ConfigurationError
   \<and> (layer_forward (ResNetBlock_init channel) (n, c, h, w) = Inr y \<longrightarrow> y = (n, c, h, w))"
  by (auto simp: resnet_block_forward)

theorem resnet_block_forward_shape_witness:
  "layer_forward (ResNetBlock_init 16) (1, 16, 84, 84) = Inr (1, 16, 84, 84)
   \<and> layer_forward (ResNetBlock_init 16) (1, 3, 84, 84) = Inl RuntimeError"
  using resnet_block_forward_shape [of 16 16 84 84 1]
    resnet_block_forward_shape [of 3 16 84 84 1]
  by simp

section \<open>Tensor operations: lemmas\<close>

lemma batch_shaped_Cons [simp]:
  "batch_shaped d (row # b) \<longleftrightarrow> length row = d \<and> batch_shaped d b"
  by (simp add: batch_shaped_def)

lemma batch_shaped_Nil [simp]: "batch_shaped d []"
  by (simp add: batch_shaped_def)

lemma batch_shaped_append [simp]:
  "batch_shaped d (a @ b) \<longleftrightarrow> batch_shaped d a \<and> batch_shaped d b"
  by (simp add: batch_shaped_def)

lemma batch_shaped_expand:
  "broadcastable d b \<Longrightarrow> batch_shaped d (map (expand d) b)"
  by (induction b) (auto simp: broadcastable_def expand_def)

lemma batch_shaped_broadcastable: "batch_shaped d b \<Longrightarrow> broadcastable d b"
  by (induction b) (auto simp: broadcastable_def)

lemma expand_batch_shaped: "batch_shaped d b \<Longrightarrow> map (expand d) b = b"
  by (induction b) (auto simp: expand_def)

lemma col_Nil [simp]: "col j [] = []"
  by (simp add: col_def)

lemma col_Cons [simp]: "col j (row # b) = row ! j # col j b"
  by (simp add: col_def)

lemma col_append: "col j (a @ b) = col j a @ col j b"
  by (simp add: col_def)

lemma length_col [simp]: "length (col j b) = length b"
  by (simp add: col_def)

lemma foldl_rows_length:
  "batch_shaped d b \<Longrightarrow> length acc = d \<Longrightarrow> length (foldl (map2 (+)) acc b) = d"
  by (induction b arbitrary: acc) auto

lemma foldl_rows_nth:
  fixes acc :: "real list"
  shows "batch_shaped d b \<Longrightarrow> length acc = d \<Longrightarrow> j < d \<Longrightarrow>
    foldl (map2 (+)) acc b ! j = acc ! j + sum_list (col j b)"
  by (induction b arbitrary: acc) auto

lemma length_sum0: "batch_shaped d b \<Longrightarrow> length (sum0 d b) = d"
  by (simp add: sum0_def foldl_rows_length)

lemma sum0_nth: "batch_shaped d b \<Longrightarrow> j < d \<Longrightarrow> sum0 d b ! j = sum_list (col j b)"
  by (simp add: sum0_def foldl_rows_nth)

lemma batch_shaped_bsub:
  "batch_shaped d b \<Longrightarrow> length v = d \<Longrightarrow> batch_shaped d (bsub b v)"
  by (induction b) (auto simp: bsub_def)

lemma col_bsub:
  "batch_shaped d b \<Longrightarrow> length v = d \<Longrightarrow> j < d \<Longrightarrow>
     col j (bsub b v) = map (\<lambda>x. x - v ! j) (col j b)"
  by (induction b) (auto simp: bsub_def)

lemma batch_shaped_bdiv_scalar:
  "batch_shaped d b \<Longrightarrow> batch_shaped d (bdiv_scalar b c)"
  by (induction b) (auto simp: bdiv_scalar_def)

lemma col_bdiv_scalar:
  "batch_shaped d b \<Longrightarrow> j < d \<Longrightarrow> col j (bdiv_scalar b c) = map (\<lambda>x. x / c) (col j b)"
  by (induction b) (auto simp: bdiv_scalar_def)

lemma batch_shaped_bmul:
  "batch_shaped d a \<Longrightarrow> batch_shaped d b \<Longrightarrow> batch_shaped d (bmul a b)"
proof (induction a arbitrary: b)
  case Nil
  then show ?case by (simp add: bmul_def)
next
  case (Cons r a)
  show ?case
  proof (cases b)
    case Nil
    then show ?thesis by (simp add: bmul_def)
  next
    case (Cons r' b')
    with Cons.prems Cons.IH [of b'] show ?thesis by (simp add: bmul_def)
  qed
qed

lemma col_bmul:
  "batch_shaped d a \<Longrightarrow> batch_shaped d b \<Longrightarrow> length a = length b \<Longrightarrow> j < d \<Longrightarrow>
     col j (bmul a b) = map2 (*) (col j a) (col j b)"
proof (induction a arbitrary: b)
  case Nil
  then show ?case by (simp add: bmul_def)
next
  case (Cons r a)
  then obtain r' b' where b: "b = r' # b'" by (cases b) auto
  with Cons show ?case by (simp add: bmul_def)
qed


section \<open>The update rule on one feature\<close>

lemma sum_list_shift:
  fixes xs :: "real list"
  shows "(\<Sum>x\<leftarrow>xs. (x - m) / N) = (sum_list xs - real (length xs) * m) / N"
  by (induction xs) (simp_all add: diff_divide_distrib add_divide_distrib algebra_simps)

lemma sum_list_products:
  fixes xs :: "real list"
  shows "(\<Sum>x\<leftarrow>xs. (x - a) * (x - b)) =
     (\<Sum>x\<leftarrow>xs. x * x) - (a + b) * sum_list xs + real (length xs) * a * b"
  by (induction xs) (simp_all add: algebra_simps)


lemma welford_mean_total:
  assumes "N \<noteq> 0" and "N = k + real (length xs)"
  shows "N * welford_mean N m xs = k * m + sum_list xs"
proof -
  have "N * ((sum_list xs - real (length xs) * m) / N) = sum_list xs - real (length xs) * m"
    using assms(1) by simp
  then have "N * welford_mean N m xs = N * m + (sum_list xs - real (length xs) * m)"
    by (simp only: welford_mean_def sum_list_shift distrib_left)
  also have "\<dots> = k * m + sum_list xs"
    by (simp add: assms(2) algebra_simps)
  finally show ?thesis .
qed

lemma welford_ssd_raw:
  assumes "N \<noteq> 0" and "N = k + real (length xs)"
  shows "welford_ssd N m v xs + N * (welford_mean N m xs)\<^sup>2 =
           v + k * m\<^sup>2 + (\<Sum>x\<leftarrow>xs. x * x)"
proof -
  define m' where "m' = welford_mean N m xs"
  define S where "S = sum_list xs"
  define n where "n = real (length xs)"
  have t: "N * m' = k * m + S"
    unfolding m'_def S_def using assms by (rule welford_mean_total)
  have N: "N = k + n"
    by (simp add: assms(2) n_def)
  have "welford_ssd N m v xs = v + ((\<Sum>x\<leftarrow>xs. x * x) - (m' + m) * S + n * m' * m)"
    by (simp add: welford_ssd_def sum_list_products m'_def S_def n_def)
  moreover have "(m' + m) * S = (m' + m) * (N * m' - k * m)"
    using t by simp
  ultimately have "welford_ssd N m v xs + N * m'\<^sup>2 =
      v + (\<Sum>x\<leftarrow>xs. x * x) - (m' + m) * (N * m' - k * m) + n * m' * m + N * m'\<^sup>2"
    by simp
  also have "\<dots> = v + k * m\<^sup>2 + (\<Sum>x\<leftarrow>xs. x * x)"
    by (simp add: N power2_eq_square algebra_simps)
  finally show ?thesis
    by (simp add: m'_def)
qed

lemma welford_increment:
  assumes "N \<noteq> 0" and "N = k + real (length xs)"
  shows "(\<Sum>x\<leftarrow>xs. (x - welford_mean N m xs) * (x - m)) =
           (\<Sum>x\<leftarrow>xs. (x - welford_mean N m xs)\<^sup>2) + k * (welford_mean N m xs - m)\<^sup>2"
proof -
  define m' where "m' = welford_mean N m xs"
  define S where "S = sum_list xs"
  define n where "n = real (length xs)"
  have t: "N * m' = k * m + S"
    unfolding m'_def S_def using assms by (rule welford_mean_total)
  have N: "N = k + n"
    by (simp add: assms(2) n_def)
  have S: "S = (k + n) * m' - k * m"
    using t N by simp
  have "(\<Sum>x\<leftarrow>xs. (x - m') * (x - m)) = (\<Sum>x\<leftarrow>xs. x * x) - (m' + m) * S + n * m' * m"
    by (simp add: sum_list_products S_def n_def)
  moreover have "(\<Sum>x\<leftarrow>xs. (x - m')\<^sup>2) = (\<Sum>x\<leftarrow>xs. x * x) - (m' + m') * S + n * m' * m'"
    by (simp add: power2_eq_square sum_list_products S_def n_def)
  ultimately have "(\<Sum>x\<leftarrow>xs. (x - m') * (x - m)) - (\<Sum>x\<leftarrow>xs. (x - m')\<^sup>2) =
      (m' - m) * S - n * m' * (m' - m)"
    by (simp add: algebra_simps)
  also have "\<dots> = k * (m' - m)\<^sup>2"
    by (simp add: S power2_eq_square algebra_simps)
  finally show ?thesis
    by (simp add: m'_def)
qed

lemma welford_increment_nonneg:
  assumes "0 \<le> k" and "N \<noteq> 0" and "N = k + real (length xs)"
  shows "0 \<le> (\<Sum>x\<leftarrow>xs. (x - welford_mean N m xs) * (x - m))"
proof -
  have "0 \<le> (\<Sum>x\<leftarrow>xs. (x - welford_mean N m xs)\<^sup>2)"
    by (rule sum_list_nonneg) auto
  moreover have "0 \<le> k * (welford_mean N m xs - m)\<^sup>2"
    using assms(1) by simp
  ultimately show ?thesis
    using welford_increment [OF assms(2,3), of m] by simp
qed

lemma welford_mean_append:
  assumes "k + real (length ys) \<noteq> 0" and "k + real (length ys) + real (length zs) \<noteq> 0"
  shows "welford_mean (k + real (length ys) + real (length zs))
           (welford_mean (k + real (length ys)) m ys) zs =
         welford_mean (k + real (length ys) + real (length zs)) m (ys @ zs)"
proof -
  define N1 where "N1 = k + real (length ys)"
  define N where "N = k + real (length ys) + real (length zs)"
  have "N * welford_mean N (welford_mean N1 m ys) zs = N1 * welford_mean N1 m ys + sum_list zs"
    using assms(2) by (intro welford_mean_total) (simp_all add: N_def N1_def)
  also have "N1 * welford_mean N1 m ys = k * m + sum_list ys"
    using assms(1) by (intro welford_mean_total) (simp_all add: N1_def)
  also have "k * m + sum_list ys + sum_list zs = N * welford_mean N m (ys @ zs)"
    using assms(2) welford_mean_total [of N k "ys @ zs" m] by (simp add: N_def)
  finally show ?thesis
    using assms(2) by (simp add: N_def N1_def)
qed

lemma welford_ssd_append:
  assumes "k + real (length ys) \<noteq> 0" and "k + real (length ys) + real (length zs) \<noteq> 0"
  shows "welford_ssd (k + real (length ys) + real (length zs))
           (welford_mean (k + real (length ys)) m ys)
           (welford_ssd (k + real (length ys)) m v ys) zs =
         welford_ssd (k + real (length ys) + real (length zs)) m v (ys @ zs)"
proof -
  define N1 where "N1 = k + real (length ys)"
  define N where "N = k + real (length ys) + real (length zs)"
  define m1 where "m1 = welford_mean N1 m ys"
  define v1 where "v1 = welford_ssd N1 m v ys"
  have N: "N \<noteq> 0" "N = N1 + real (length zs)" "N = k + real (length (ys @ zs))"
    and N1: "N1 \<noteq> 0" "N1 = k + real (length ys)"
    using assms by (simp_all add: N_def N1_def)
  have "welford_ssd N m1 v1 zs + N * (welford_mean N m1 zs)\<^sup>2 =
          v1 + N1 * m1\<^sup>2 + (\<Sum>x\<leftarrow>zs. x * x)"
    using N(1,2) by (rule welford_ssd_raw)
  also have "v1 + N1 * m1\<^sup>2 = v + k * m\<^sup>2 + (\<Sum>x\<leftarrow>ys. x * x)"
    unfolding v1_def m1_def using N1 by (rule welford_ssd_raw)
  also have "v + k * m\<^sup>2 + (\<Sum>x\<leftarrow>ys. x * x) + (\<Sum>x\<leftarrow>zs. x * x) =
      welford_ssd N m v (ys @ zs) + N * (welford_mean N m (ys @ zs))\<^sup>2"
    using welford_ssd_raw [OF N(1,3), of m v] by simp
  also have "welford_mean N m (ys @ zs) = welford_mean N m1 zs"
    unfolding N_def m1_def N1_def using assms by (rule welford_mean_append [symmetric])
  finally show ?thesis
    by (simp add: N_def N1_def m1_def v1_def)
qed

section \<open>The normalizer: one update, field by field\<close>

lemma map2_same:
  "map2 f (map g xs) (map h xs) = map (\<lambda>x. f (g x) (h x)) xs"
  by (induction xs) auto

lemma length_bsub [simp]: "length (bsub b v) = length b"
  by (simp add: bsub_def)

lemma update_fields:
  assumes ok: "buffers_ok s" and bc: "broadcastable (obs_size s) b"
  shows "\<exists>s'. update s b = Inr s'
     \<and> normalization_steps s' = normalization_steps s + int (length b)
     \<and> length (running_mean s') = obs_size s
     \<and> length (running_variance s') = obs_size s
     \<and> (\<forall>j<obs_size s.
          running_mean s' ! j =
            welford_mean (real_of_int (normalization_steps s + int (length b)))
              (running_mean s ! j) (col j (map (expand (obs_size s)) b))
        \<and> running_variance s' ! j =
            welford_ssd (real_of_int (normalization_steps s + int (length b)))
              (running_mean s ! j) (running_variance s ! j) (col j (map (expand (obs_size s)) b)))"
proof -
  define d where "d = obs_size s"
  define rows where "rows = map (expand d) b"
  define N where "N = real_of_int (normalization_steps s + int (length b))"
  define old where "old = bsub rows (running_mean s)"
  define new_mean where
    "new_mean = vadd (running_mean s) (sum0 d (bdiv_scalar old N))"
  define new where "new = bsub rows new_mean"
  define new_variance where
    "new_variance = vadd (running_variance s) (sum0 d (bmul new old))"
  have len: "length (running_mean s) = d" "length (running_variance s) = d"
    using ok by (simp_all add: d_def obs_size_def buffers_ok_def)
  have rows: "batch_shaped d rows"
    using bc unfolding rows_def d_def by (rule batch_shaped_expand)
  have old: "batch_shaped d old"
    unfolding old_def using rows len(1) by (rule batch_shaped_bsub)
  have len_mean: "length new_mean = d"
    by (simp add: new_mean_def vadd_def len length_sum0 batch_shaped_bdiv_scalar old)
  have new: "batch_shaped d new"
    unfolding new_def using rows len_mean by (rule batch_shaped_bsub)
  have len_var: "length new_variance = d"
    by (simp add: new_variance_def vadd_def len length_sum0 batch_shaped_bmul new old)
  have mean_j: "new_mean ! j = welford_mean N (running_mean s ! j) (col j rows)" if "j < d" for j
  proof -
    have "new_mean ! j = running_mean s ! j + sum_list (col j (bdiv_scalar old N))"
      using that
      by (simp add: new_mean_def vadd_def len length_sum0 batch_shaped_bdiv_scalar old sum0_nth)
    also have "col j (bdiv_scalar old N) = map (\<lambda>x. x / N) (col j old)"
      using old that by (rule col_bdiv_scalar)
    also have "col j old = map (\<lambda>x. x - running_mean s ! j) (col j rows)"
      unfolding old_def using rows len(1) that by (rule col_bsub)
    finally show ?thesis
      by (simp add: welford_mean_def o_def)
  qed
  have var_j: "new_variance ! j =
      welford_ssd N (running_mean s ! j) (running_variance s ! j) (col j rows)" if "j < d" for j
  proof -
    have "new_variance ! j = running_variance s ! j + sum_list (col j (bmul new old))"
      using that
      by (simp add: new_variance_def vadd_def len length_sum0 batch_shaped_bmul new old sum0_nth)
    also have "col j (bmul new old) = map2 (*) (col j new) (col j old)"
      using new old _ that by (rule col_bmul) (simp add: new_def old_def)
    also have "col j old = map (\<lambda>x. x - running_mean s ! j) (col j rows)"
      unfolding old_def using rows len(1) that by (rule col_bsub)
    also have "col j new = map (\<lambda>x. x - new_mean ! j) (col j rows)"
      unfolding new_def using rows len_mean that by (rule col_bsub)
    finally show ?thesis
      using that by (simp add: welford_ssd_def mean_j map2_same)
  qed
  have "update s b = Inr \<lparr>normalization_steps = normalization_steps s + int (length b),
      running_mean = new_mean, running_variance = new_variance\<rparr>"
    using bc
    by (simp add: update_def Let_def new_variance_def new_def new_mean_def old_def rows_def
        N_def d_def obs_size_def)
  then show ?thesis
    using len_mean len_var mean_j var_j by (simp add: d_def rows_def N_def)
qed

lemma vadd_zeros: "length v = d \<Longrightarrow> vadd v (replicate d 0) = v"
  by (induction v arbitrary: d) (auto simp: vadd_def)

lemma update_Inr_broadcastable: "update s b = Inr s' \<Longrightarrow> broadcastable (obs_size s) b"
  by (simp add: update_def obs_size_def Let_def split: if_splits)

lemma update_step:
  assumes "0 \<le> normalization_steps s" and "buffers_ok s" and "update s b = Inr s'"
  shows "normalization_steps s' = normalization_steps s + int (length b)"
    and "buffers_ok s'" and "obs_size s' = obs_size s"
    and "j < obs_size s \<Longrightarrow> running_variance s ! j \<le> running_variance s' ! j"
proof -
  define N where "N = real_of_int (normalization_steps s + int (length b))"
  define rows where "rows = map (expand (obs_size s)) b"
  have bc: "broadcastable (obs_size s) b"
    using assms(3) by (rule update_Inr_broadcastable)
  from update_fields [OF assms(2) bc] assms(3)
  have f: "normalization_steps s' = normalization_steps s + int (length b)"
    "length (running_mean s') = obs_size s" "length (running_variance s') = obs_size s"
    "\<And>j. j < obs_size s \<Longrightarrow> running_variance s' ! j =
        welford_ssd N (running_mean s ! j) (running_variance s ! j) (col j rows)"
    by (auto simp: N_def rows_def)
  show "normalization_steps s' = normalization_steps s + int (length b)"
    by (rule f(1))
  show "buffers_ok s'" "obs_size s' = obs_size s"
    using f(2,3) by (simp_all add: buffers_ok_def obs_size_def)
  show "running_variance s ! j \<le> running_variance s' ! j" if "j < obs_size s"
  proof (cases "N = 0")
    case True
    then have "normalization_steps s + int (length b) = 0"
      by (simp only: N_def of_int_eq_0_iff)
    with assms(1) have "length b = 0"
      by linarith
    then show ?thesis
      using f(4) [OF that] by (simp add: welford_ssd_def rows_def)
  next
    case False
    have "N = real_of_int (normalization_steps s) + real (length (col j rows))"
      by (simp add: N_def rows_def)
    with assms(1) False
    have "0 \<le> (\<Sum>x\<leftarrow>col j rows. (x - welford_mean N (running_mean s ! j) (col j rows))
                  * (x - running_mean s ! j))"
      by (intro welford_increment_nonneg [where k = "real_of_int (normalization_steps s)"]) simp_all
    then show ?thesis
      using f(4) [OF that] by (simp add: welford_ssd_def)
  qed
qed

lemma update_stats_inv:
  assumes "stats_inv s" and "update s b = Inr s'"
  shows "stats_inv s'"
proof -
  have s: "0 \<le> normalization_steps s" "buffers_ok s"
    using assms(1) by (simp_all add: stats_inv_def)
  note st = update_step [OF s assms(2)]
  have "0 \<le> running_variance s' ! j" if "j < length (running_variance s')" for j
  proof -
    have j: "j < obs_size s" "j < length (running_variance s)"
      using that st(2,3) s(2) by (simp_all add: buffers_ok_def obs_size_def)
    have "0 \<le> running_variance s ! j"
      using assms(1) j(2) by (simp add: stats_inv_def list_all_length)
    with st(4) [OF j(1)] show ?thesis by simp
  qed
  then show ?thesis
    using assms(1) st(1,2) by (simp add: stats_inv_def list_all_length)
qed

lemma update_empty: "buffers_ok s \<Longrightarrow> update s [] = Inr s"
  by (simp add: update_def broadcastable_def bsub_def bdiv_scalar_def bmul_def sum0_def
      vadd_zeros buffers_ok_def)

lemma update_append:
  assumes pos: "1 \<le> normalization_steps s" and ok: "buffers_ok s"
    and b1: "batch_shaped (obs_size s) b1" and b2: "batch_shaped (obs_size s) b2"
    and u1: "update s b1 = Inr s1"
  shows "update s1 b2 = update s (b1 @ b2)"
proof -
  define d where "d = obs_size s"
  define k where "k = real_of_int (normalization_steps s)"
  have k: "1 \<le> k"
    using pos by (simp add: k_def)
  have s0: "0 \<le> normalization_steps s"
    using pos by simp
  note st1 = update_step(1-3) [OF s0 ok u1]
  have bc1: "broadcastable d b1" and bc2: "broadcastable (obs_size s1) b2"
    and bc: "broadcastable d (b1 @ b2)"
    using b1 b2 st1(3) by (simp_all add: d_def batch_shaped_broadcastable)
  have e1: "map (expand d) b1 = b1" and e2: "map (expand (obs_size s1)) b2 = b2"
    and e: "map (expand d) (b1 @ b2) = b1 @ b2"
    using b1 b2 st1(3) by (simp_all add: d_def expand_batch_shaped)
  from update_fields [OF ok bc1 [unfolded d_def]] u1
  have f1: "\<And>j. j < d \<Longrightarrow> running_mean s1 ! j =
        welford_mean (k + real (length b1)) (running_mean s ! j) (col j b1)"
    "\<And>j. j < d \<Longrightarrow> running_variance s1 ! j =
        welford_ssd (k + real (length b1)) (running_mean s ! j) (running_variance s ! j) (col j b1)"
    using e1 by (simp_all add: d_def k_def)
  from update_fields [OF st1(2) bc2] obtain s2 where s2: "update s1 b2 = Inr s2"
    "normalization_steps s2 = normalization_steps s1 + int (length b2)"
    "length (running_mean s2) = d" "length (running_variance s2) = d"
    "\<And>j. j < d \<Longrightarrow> running_mean s2 ! j =
        welford_mean (k + real (length b1) + real (length b2)) (running_mean s1 ! j) (col j b2)"
    "\<And>j. j < d \<Longrightarrow> running_variance s2 ! j =
        welford_ssd (k + real (length b1) + real (length b2))
          (running_mean s1 ! j) (running_variance s1 ! j) (col j b2)"
    unfolding e2 by (auto simp: st1 d_def k_def)
  from update_fields [OF ok bc [unfolded d_def]] obtain s' where s': "update s (b1 @ b2) = Inr s'"
    "normalization_steps s' = normalization_steps s + int (length (b1 @ b2))"
    "length (running_mean s') = d" "length (running_variance s') = d"
    "\<And>j. j < d \<Longrightarrow> running_mean s' ! j =
        welford_mean (k + real (length b1) + real (length b2)) (running_mean s ! j) (col j (b1 @ b2))"
    "\<And>j. j < d \<Longrightarrow> running_variance s' ! j =
        welford_ssd (k + real (length b1) + real (length b2))
          (running_mean s ! j) (running_variance s ! j) (col j (b1 @ b2))"
    unfolding e [unfolded d_def] by (auto simp: d_def k_def add.assoc)
  have nz: "k + real (length b1) \<noteq> 0" "k + real (length b1) + real (length b2) \<noteq> 0"
    using k by simp_all
  have "running_mean s2 = running_mean s'"
  proof (rule nth_equalityI)
    show "length (running_mean s2) = length (running_mean s')"
      by (simp add: s2(3) s'(3))
    fix j assume "j < length (running_mean s2)"
    then have j: "j < d"
      by (simp add: s2(3))
    show "running_mean s2 ! j = running_mean s' ! j"
      using welford_mean_append [of k "col j b1" "col j b2" "running_mean s ! j"] nz
      by (simp add: s2(5) [OF j] s'(5) [OF j] f1(1) [OF j] col_append)
  qed
  moreover have "running_variance s2 = running_variance s'"
  proof (rule nth_equalityI)
    show "length (running_variance s2) = length (running_variance s')"
      by (simp add: s2(4) s'(4))
    fix j assume "j < length (running_variance s2)"
    then have j: "j < d"
      by (simp add: s2(4))
    show "running_variance s2 ! j = running_variance s' ! j"
      using welford_ssd_append
        [of k "col j b1" "col j b2" "running_mean s ! j" "running_variance s ! j"] nz
      by (simp add: s2(6) [OF j] s'(6) [OF j] f1 [OF j] col_append)
  qed
  moreover have "normalization_steps s2 = normalization_steps s'"
    by (simp add: s2(2) s'(2) st1(1))
  ultimately have "s2 = s'"
    by (rule_tac normalizer.equality) simp_all
  then show ?thesis
    by (simp add: s2(1) s'(1))
qed

lemma updates_concat:
  assumes "1 \<le> normalization_steps s" and "buffers_ok s"
    and "list_all (batch_shaped (obs_size s)) chunks"
  shows "updates s chunks = update s (concat chunks)"
  using assms
proof (induction chunks arbitrary: s)
  case Nil
  then show ?case
    by (simp add: update_empty)
next
  case (Cons b bs)
  have b: "batch_shaped (obs_size s) b" and bs: "list_all (batch_shaped (obs_size s)) bs"
    using Cons.prems(3) by simp_all
  have s0: "0 \<le> normalization_steps s"
    using Cons.prems(1) by simp
  from update_fields [OF Cons.prems(2) batch_shaped_broadcastable [OF b]]
  obtain s1 where u1: "update s b = Inr s1"
    by blast
  note st1 = update_step(1-3) [OF s0 Cons.prems(2) u1]
  have "updates s1 bs = update s1 (concat bs)"
    using Cons.prems(1) bs by (intro Cons.IH) (simp_all add: st1)
  also have "\<dots> = update s (b @ concat bs)"
    using Cons.prems(1,2) b _ u1 by (rule update_append)
      (use bs in \<open>simp add: batch_shaped_def list_all_iff\<close>)
  finally show ?case
    by (simp add: u1)
qed

lemma tensor_copy_cases:
  assumes "tensor_copy dst src = Some v"
  shows "length v = length dst"
    and "j < length dst \<Longrightarrow> v ! j \<in> set src"
proof -
  show "length v = length dst"
    using assms by (auto simp: tensor_copy_def split: if_splits)
  show "v ! j \<in> set src" if "j < length dst"
  proof (cases "length src = length dst")
    case True
    with assms that show ?thesis
      by (simp add: tensor_copy_def)
  next
    case False
    with assms have "length src = 1" "v = replicate (length dst) (hd src)"
      by (auto simp: tensor_copy_def split: if_splits)
    moreover from this(1) have "hd src \<in> set src"
      by (cases src) simp_all
    ultimately show ?thesis
      using that by simp
  qed
qed

lemma reachable_inv:
  assumes "reachable s"
  shows "1 \<le> normalization_steps s \<and> buffers_ok s
     \<and> (\<forall>v\<in>set (running_variance s). 1 \<le> v)"
  using assms
proof (induction rule: reachable.induct)
  case (reachable_init vec_obs_size s)
  then show ?case
    by (auto simp: Normalizer_init_def buffers_ok_def split: if_splits)
next
  case (reachable_update s b s')
  then have s: "0 \<le> normalization_steps s" "buffers_ok s"
    by simp_all
  note st = update_step [OF s reachable_update(2)]
  have "1 \<le> v" if "v \<in> set (running_variance s')" for v
  proof -
    from that obtain j where j: "j < length (running_variance s')" "v = running_variance s' ! j"
      by (auto simp: in_set_conv_nth)
    then have js: "j < obs_size s" "j < length (running_variance s)"
      using st(2,3) s(2) by (simp_all add: buffers_ok_def obs_size_def)
    then have "1 \<le> running_variance s ! j"
      using reachable_update.IH by simp
    with st(4) [OF js(1)] j(2) show ?thesis by simp
  qed
  then show ?case
    using reachable_update.IH st(1,2) by simp
next
  case (reachable_copy s t e s')
  show ?case
  proof (cases "tensor_copy (running_mean s) (running_mean t)")
    case None
    with reachable_copy show ?thesis
      by (auto simp: copy_from_def buffers_ok_def)
  next
    case m: (Some m)
    show ?thesis
    proof (cases "tensor_copy (running_variance s) (running_variance t)")
      case None
      with m reachable_copy tensor_copy_cases(1) [OF m] show ?thesis
        by (auto simp: copy_from_def buffers_ok_def)
    next
      case v: (Some v)
      have "1 \<le> x" if "x \<in> set v" for x
      proof -
        from that obtain j where "j < length v" "x = v ! j"
          by (auto simp: in_set_conv_nth)
        with tensor_copy_cases [OF v] have "x \<in> set (running_variance t)"
          by simp
        with reachable_copy.IH(2) show ?thesis by simp
      qed
      with m v reachable_copy tensor_copy_cases(1) [OF m] tensor_copy_cases(1) [OF v]
      show ?thesis
        by (auto simp: copy_from_def buffers_ok_def)
    qed
  qed
qed

lemma clamp_bounds: "lo \<le> hi \<Longrightarrow> lo \<le> clamp x lo hi \<and> clamp x lo hi \<le> hi"
  by (simp add: clamp_def)

lemma normalized_state_nth:
  assumes ok: "buffers_ok s" and shaped: "batch_shaped (obs_size s) inputs"
  shows "\<exists>out. normalized_state s inputs = Inr out \<and> length out = length inputs
     \<and> (\<forall>i<length inputs. length (out ! i) = obs_size s
          \<and> (\<forall>j<obs_size s.
                out ! i ! j =
                  clamp ((inputs ! i ! j - running_mean s ! j)
                           / sqrt (running_variance s ! j / real_of_int (normalization_steps s)))
                    (- 5) 5))"
proof -
  define d where "d = obs_size s"
  define scale where "scale = map sqrt (vdiv_scalar (running_variance s)
                                        (real_of_int (normalization_steps s)))"
  have len: "length (running_mean s) = d" "length (running_variance s) = d" "length scale = d"
    using ok by (simp_all add: d_def obs_size_def buffers_ok_def scale_def vdiv_scalar_def)
  have rows: "length (inputs ! i) = d" if "i < length inputs" for i
    using shaped that by (simp add: batch_shaped_def list_all_length d_def)
  have scale_j: "scale ! j = sqrt (running_variance s ! j / real_of_int (normalization_steps s))"
    if "j < d" for j
    using that len by (simp add: scale_def vdiv_scalar_def)
  show ?thesis
  proof (cases "d = 1")
    case True
    have "running_mean s \<noteq> []" "scale \<noteq> []"
      using len True by auto
    then have hd: "hd (running_mean s) = running_mean s ! 0" "hd scale = scale ! 0"
      by (simp_all add: hd_conv_nth)
    have "normalized_state s inputs =
        Inr (map (map (\<lambda>x. clamp ((x - hd (running_mean s)) / hd scale) (- 5) 5)) inputs)"
      using True by (simp add: normalized_state_def Let_def d_def obs_size_def scale_def)
    then show ?thesis
      using True rows scale_j [of 0] by (simp add: hd d_def [symmetric])
  next
    case False
    have "normalized_state s inputs =
        Inr (map (map (\<lambda>x. clamp x (- 5) 5)) (bdiv (bsub inputs (running_mean s)) scale))"
      using False shaped
      by (simp add: normalized_state_def Let_def d_def [symmetric] obs_size_def [symmetric]
          scale_def batch_shaped_broadcastable expand_batch_shaped)
    then show ?thesis
      using rows len scale_j by (simp add: bdiv_def bsub_def d_def [symmetric])
  qed
qed

text \<open>The invariant and the result of \<^verbatim>\<open>forward\<close> in exact arithmetic.\<close>

lemma stats_invariant_exact:
  "(Normalizer_init vec_obs_size = Inr s0 \<longrightarrow>
      normalization_steps s0 = 1
      \<and> running_mean s0 = replicate (nat vec_obs_size) 0
      \<and> running_variance s0 = replicate (nat vec_obs_size) 1
      \<and> stats_inv s0)
   \<and> (stats_inv s \<and> update s batch = Inr s' \<longrightarrow>
        stats_inv s'
        \<and> normalization_steps s \<le> normalization_steps s'
        \<and> (\<forall>j<obs_size s. running_variance s ! j \<le> running_variance s' ! j))"
proof -
  have "stats_inv s0" if "Normalizer_init vec_obs_size = Inr s0"
    using that
    by (auto simp: Normalizer_init_def stats_inv_def buffers_ok_def list_all_length
        split: if_splits)
  moreover have "stats_inv s'" "normalization_steps s \<le> normalization_steps s'"
    "\<forall>j<obs_size s. running_variance s ! j \<le> running_variance s' ! j"
    if "stats_inv s" "update s batch = Inr s'"
  proof -
    have s: "0 \<le> normalization_steps s" "buffers_ok s"
      using that(1) by (simp_all add: stats_inv_def)
    show "stats_inv s'"
      using that by (rule update_stats_inv)
    show "normalization_steps s \<le> normalization_steps s'"
      using update_step(1) [OF s that(2)] by simp
    show "\<forall>j<obs_size s. running_variance s ! j \<le> running_variance s' ! j"
      using update_step(4) [OF s that(2)] by simp
  qed
  ultimately show ?thesis
    by (auto simp: Normalizer_init_def split: if_splits)
qed

lemma forward_exact:
  assumes "reachable s" and "batch_shaped (obs_size s) inputs"
  shows "\<exists>out. forward s inputs = Inr (out, s) \<and> length out = length inputs
     \<and> (\<forall>i<length inputs. length (out ! i) = obs_size s
          \<and> (\<forall>j<obs_size s.
                0 < sqrt (running_variance s ! j / real_of_int (normalization_steps s))
                \<and> out ! i ! j =
                    clamp ((inputs ! i ! j - running_mean s ! j)
                             / sqrt (running_variance s ! j / real_of_int (normalization_steps s)))
                      (- 5) 5
                \<and> - 5 \<le> out ! i ! j \<and> out ! i ! j \<le> 5))"
proof -
  from reachable_inv [OF assms(1)]
  have inv: "1 \<le> normalization_steps s" "buffers_ok s" "\<forall>v\<in>set (running_variance s). 1 \<le> v"
    by simp_all
  have pos: "0 < sqrt (running_variance s ! j / real_of_int (normalization_steps s))"
    if "j < obs_size s" for j
  proof -
    have "running_variance s ! j \<in> set (running_variance s)"
      using that inv(2) by (simp add: buffers_ok_def obs_size_def)
    with inv(3) have "1 \<le> running_variance s ! j"
      by blast
    with inv(1) show ?thesis
      by simp
  qed
  from normalized_state_nth [OF inv(2) assms(2)] obtain out where
    out: "normalized_state s inputs = Inr out" "length out = length inputs"
    "\<And>i j. i < length inputs \<Longrightarrow> length (out ! i) = obs_size s"
    "\<And>i j. i < length inputs \<Longrightarrow> j < obs_size s \<Longrightarrow> out ! i ! j =
         clamp ((inputs ! i ! j - running_mean s ! j)
                  / sqrt (running_variance s ! j / real_of_int (normalization_steps s))) (- 5) 5"
    by blast
  have "forward s inputs = Inr (out, s)"
    by (simp add: forward_def out(1))
  moreover have "- 5 \<le> out ! i ! j \<and> out ! i ! j \<le> 5"
    if "i < length inputs" "j < obs_size s" for i j
    unfolding out(4) [OF that] by (rule clamp_bounds) simp
  ultimately show ?thesis
    using out(2,3,4) pos by (intro exI [of _ out]) simp
qed

section \<open>The normalizer in the program's own arithmetic: lemmas\<close>

lemma fclamp_range:
  "lo \<le> hi \<Longrightarrow>
     fclamp x lo hi = NaN \<or> (f32_le (Fin lo) (fclamp x lo hi) \<and> f32_le (fclamp x lo hi) (Fin hi))"
  by (cases x) auto

lemma fclamp_NaN_iff: "fclamp x lo hi = NaN \<longleftrightarrow> x = NaN"
  by (cases x) auto

lemma wrap64_id: "- (2 ^ 63) \<le> i \<Longrightarrow> i < 2 ^ 63 \<Longrightarrow> wrap64 i = i"
  by (simp add: wrap64_def)

lemma update_f32_steps:
  assumes "update_f32 rnd s b = Inr s'"
  shows "normalization_steps_i64 s' = wrap64 (normalization_steps_i64 s + int (length b))"
  using assms by (auto simp: update_f32_def Let_def split: if_splits)

lemma normalized_state_f32_nth:
  assumes ok: "buffers32_ok s" and shaped: "batch_shaped (length (running_mean_f32 s)) inputs"
  shows "\<exists>out. normalized_state_f32 rnd s inputs = Inr out \<and> length out = length inputs
     \<and> (\<forall>i<length inputs. length (out ! i) = length (running_mean_f32 s)
          \<and> (\<forall>j<length (running_mean_f32 s).
                out ! i ! j = fclamp (normalized_f32 rnd s j (inputs ! i ! j)) (- 5) 5))"
proof -
  define d where "d = length (running_mean_f32 s)"
  define scale where "scale = map (fsqrt rnd)
                    (vdiv_scalar_f32 rnd (running_variance_f32 s)
                       (fl rnd (real_of_int (normalization_steps_i64 s))))"
  have len: "length (running_mean_f32 s) = d" "length (running_variance_f32 s) = d"
    "length scale = d"
    using ok by (simp_all add: d_def buffers32_ok_def scale_def vdiv_scalar_f32_def)
  have rows: "length (inputs ! i) = d" if "i < length inputs" for i
    using shaped that by (simp add: batch_shaped_def list_all_length d_def)
  have scale_j: "scale ! j = fsqrt rnd (fdiv rnd (running_variance_f32 s ! j)
                     (fl rnd (real_of_int (normalization_steps_i64 s))))"
    if "j < d" for j
    using that len by (simp add: scale_def vdiv_scalar_f32_def)
  show ?thesis
  proof (cases "d = 1")
    case True
    have "running_mean_f32 s \<noteq> []" "scale \<noteq> []"
      using len True by auto
    then have hd: "hd (running_mean_f32 s) = running_mean_f32 s ! 0" "hd scale = scale ! 0"
      by (simp_all add: hd_conv_nth)
    have "normalized_state_f32 rnd s inputs =
        Inr (map (map (\<lambda>x. fclamp (fdiv rnd (fsub rnd x (hd (running_mean_f32 s))) (hd scale))
                                  (- 5) 5)) inputs)"
      using True by (simp add: normalized_state_f32_def Let_def d_def scale_def)
    then show ?thesis
      using True rows scale_j [of 0]
      by (simp add: hd d_def [symmetric] normalized_f32_def)
  next
    case False
    have "normalized_state_f32 rnd s inputs =
        Inr (map (map (\<lambda>x. fclamp x (- 5) 5))
               (bdiv_f32 rnd (bsub_f32 rnd inputs (running_mean_f32 s)) scale))"
      using False shaped
      by (simp add: normalized_state_f32_def Let_def d_def [symmetric]
          scale_def batch_shaped_broadcastable expand_batch_shaped)
    then show ?thesis
      using rows len scale_j
      by (simp add: bdiv_f32_def bsub_f32_def d_def [symmetric] normalized_f32_def)
  qed
qed

section \<open>The normalizer: theorems\<close>

text \<open>
  Claim C1. For a state of the data model (a step count of at least 1, buffers of one
  length \<open>d\<close>) and a batch of \<open>n\<close> samples of \<open>d\<close> features, \<^verbatim>\<open>update\<close> returns, and
  afterwards the step count is \<open>stepCount + n\<close>, every entry of the mean is
  \<open>mean + sum((batch - mean) / newTotal)\<close> over the rows, and every entry of the sum of
  squared deviations is \<open>sumSqDev + sum((batch - newMean) * (batch - mean))\<close> with the new
  mean in the first factor and the old one in the second: the batched Welford update. All
  three fields of the returned state hold the new values.
\<close>

theorem update_is_batched_welford:
  assumes "1 \<le> normalization_steps s" and "buffers_ok s" and "batch_shaped (obs_size s) batch"
  shows "\<exists>s'. update s batch = Inr s'
     \<and> normalization_steps s' = normalization_steps s + int (length batch)
     \<and> length (running_mean s') = obs_size s
     \<and> length (running_variance s') = obs_size s
     \<and> (\<forall>j<obs_size s.
          running_mean s' ! j =
            running_mean s ! j
            + (\<Sum>row\<leftarrow>batch. (row ! j - running_mean s ! j)
                               / real_of_int (normalization_steps s + int (length batch)))
        \<and> running_variance s' ! j =
            running_variance s ! j
            + (\<Sum>row\<leftarrow>batch. (row ! j - running_mean s' ! j) * (row ! j - running_mean s ! j)))"
proof -
  have "broadcastable (obs_size s) batch"
    using assms(3) by (rule batch_shaped_broadcastable)
  from update_fields [OF assms(2) this] obtain s' where s': "update s batch = Inr s'"
    "normalization_steps s' = normalization_steps s + int (length batch)"
    "length (running_mean s') = obs_size s" "length (running_variance s') = obs_size s"
    "\<And>j. j < obs_size s \<Longrightarrow>
          running_mean s' ! j =
            welford_mean (real_of_int (normalization_steps s + int (length batch)))
              (running_mean s ! j) (col j batch)"
    "\<And>j. j < obs_size s \<Longrightarrow>
          running_variance s' ! j =
            welford_ssd (real_of_int (normalization_steps s + int (length batch)))
              (running_mean s ! j) (running_variance s ! j) (col j batch)"
    unfolding expand_batch_shaped [OF assms(3)] by blast
  have "running_mean s' ! j =
            running_mean s ! j
            + (\<Sum>row\<leftarrow>batch. (row ! j - running_mean s ! j)
                               / real_of_int (normalization_steps s + int (length batch)))"
    if "j < obs_size s" for j
    using s'(5) [OF that] by (simp add: welford_mean_def col_def o_def)
  moreover have "running_variance s' ! j =
            running_variance s ! j
            + (\<Sum>row\<leftarrow>batch. (row ! j - running_mean s' ! j) * (row ! j - running_mean s ! j))"
    if "j < obs_size s" for j
    using s'(6) [OF that] s'(5) [OF that] by (simp add: welford_ssd_def col_def o_def)
  ultimately show ?thesis
    using s'(1-4) by blast
qed

theorem update_is_batched_welford_witness:
  "\<exists>s'. update \<lparr>normalization_steps = 1, running_mean = [0, 0], running_variance = [1, 1]\<rparr>
            [[1, 2], [3, 4]] = Inr s'
     \<and> normalization_steps s' = 3
     \<and> running_mean s' ! 0 = 4 / 3
     \<and> running_variance s' ! 0 = 1 + ((1 - 4 / 3) * 1 + (3 - 4 / 3) * 3)"
proof -
  define s :: normalizer where
    "s = \<lparr>normalization_steps = 1, running_mean = [0, 0], running_variance = [1, 1]\<rparr>"
  define batch :: batch where "batch = [[1, 2], [3, 4]]"
  have h: "1 \<le> normalization_steps s" "buffers_ok s" "batch_shaped (obs_size s) batch"
    by (simp_all add: s_def batch_def buffers_ok_def obs_size_def)
  from update_is_batched_welford [OF h] obtain s' where s': "update s batch = Inr s'"
    "normalization_steps s' = normalization_steps s + int (length batch)"
    "\<forall>j<obs_size s.
          running_mean s' ! j =
            running_mean s ! j
            + (\<Sum>row\<leftarrow>batch. (row ! j - running_mean s ! j)
                               / real_of_int (normalization_steps s + int (length batch)))
        \<and> running_variance s' ! j =
            running_variance s ! j
            + (\<Sum>row\<leftarrow>batch. (row ! j - running_mean s' ! j) * (row ! j - running_mean s ! j))"
    by blast
  have "0 < obs_size s"
    by (simp add: s_def obs_size_def)
  with s'(3) have "running_mean s' ! 0 = 4 / 3"
    "running_variance s' ! 0 =
            running_variance s ! 0
            + (\<Sum>row\<leftarrow>batch. (row ! 0 - running_mean s' ! 0) * (row ! 0 - running_mean s ! 0))"
    by (simp_all add: s_def batch_def)
  then show ?thesis
    using s'(1,2) by (simp add: s_def batch_def)
qed

text \<open>
  Claim C10. An update with the empty batch changes nothing: the state after the call is
  the state before it, whatever the step count.
\<close>

theorem update_empty_batch_is_noop:
  assumes "buffers_ok s"
  shows "update s [] = Inr s"
  using assms by (rule update_empty)

theorem update_empty_batch_is_noop_witness:
  "update \<lparr>normalization_steps = 7, running_mean = [1 / 2, - 3], running_variance = [4, 9 / 2]\<rparr> []
     = Inr \<lparr>normalization_steps = 7, running_mean = [1 / 2, - 3], running_variance = [4, 9 / 2]\<rparr>"
  by (rule update_empty_batch_is_noop) (simp add: buffers_ok_def)

text \<open>
  Claim C4. Starting from a state of the data model, one \<^verbatim>\<open>update\<close> with all the samples
  and a sequence of \<^verbatim>\<open>update\<close> calls with the same samples cut, in order, into any number of
  batches both return, with the same mean and the same variance \<open>sumSqDev / stepCount\<close>;
  in exact arithmetic the two final states are equal in all three fields.
\<close>

theorem split_updates_agree:
  assumes "1 \<le> normalization_steps s" and "buffers_ok s"
    and "list_all (batch_shaped (obs_size s)) chunks"
  shows "\<exists>s1 s2. update s (concat chunks) = Inr s1 \<and> updates s chunks = Inr s2
     \<and> running_mean s2 = running_mean s1
     \<and> vdiv_scalar (running_variance s2) (real_of_int (normalization_steps s2)) =
         vdiv_scalar (running_variance s1) (real_of_int (normalization_steps s1))
     \<and> s2 = s1"
proof -
  have "batch_shaped (obs_size s) (concat chunks)"
    using assms(3) by (induction chunks) simp_all
  then have "broadcastable (obs_size s) (concat chunks)"
    by (rule batch_shaped_broadcastable)
  from update_fields [OF assms(2) this] obtain s1 where "update s (concat chunks) = Inr s1"
    by blast
  moreover have "updates s chunks = update s (concat chunks)"
    using assms by (rule updates_concat)
  ultimately show ?thesis
    by simp
qed

theorem split_updates_agree_witness:
  "updates \<lparr>normalization_steps = 1, running_mean = [0, 0], running_variance = [1, 1]\<rparr>
      [[[1, 2]], [[3, 4]]]
   = Inr \<lparr>normalization_steps = 3, running_mean = [4 / 3, 2], running_variance = [17 / 3, 9]\<rparr>"
proof -
  define s0 :: normalizer where
    "s0 = \<lparr>normalization_steps = 1, running_mean = [0, 0], running_variance = [1, 1]\<rparr>"
  define s1 :: normalizer where
    "s1 = \<lparr>normalization_steps = 3, running_mean = [4 / 3, 2], running_variance = [17 / 3, 9]\<rparr>"
  have h: "1 \<le> normalization_steps s0" "buffers_ok s0"
    "list_all (batch_shaped (obs_size s0)) [[[1, 2]], [[3, 4]]]"
    by (simp_all add: s0_def buffers_ok_def obs_size_def)
  have u: "update s0 (concat [[[1, 2]], [[3, 4]]]) = Inr s1"
    by (simp add: update_def s0_def s1_def broadcastable_def expand_def bsub_def bdiv_scalar_def
        bmul_def sum0_def vadd_def numeral_2_eq_2)
  from split_updates_agree [OF h] u have "updates s0 [[[1, 2]], [[3, 4]]] = Inr s1"
    by auto
  then show ?thesis
    by (simp add: s0_def s1_def)
qed

text \<open>
  Claim C3, as stated: every \<^verbatim>\<open>update\<close> call keeps the step count at least 1 and every entry
  of the sum of squared deviations \<open>\<ge> 0\<close>. In the program's arithmetic it does not. A
  fresh normalizer of one feature, updated with the three finite samples \<open>2^70\<close>, \<open>2^70\<close>
  and \<open>3 * 2^71\<close>, computes the new mean \<open>2^71\<close> and then the products \<open>-2^140\<close>,
  \<open>-2^140\<close> and \<open>3 * 2^143\<close>, which lie beyond the float range: they are stored as
  \<open>-inf\<close>, \<open>-inf\<close> and \<open>+inf\<close>, their sum is NaN, and NaN is not \<open>\<ge> 0\<close>. Every finite
  number of this run is a 32-bit float, so no rounding takes place and \<open>rnd\<close> is the
  identity. And a counter at \<open>2^63 - 1\<close> wraps to \<open>-2^63\<close> with the next sample.
\<close>

theorem update_breaks_invariant:
  "Normalizer_init_f32 1 =
     Inr \<lparr>normalization_steps_i64 = 1, running_mean_f32 = [Fin 0],
          running_variance_f32 = [Fin 1]\<rparr>
   \<and> update_f32 id
       \<lparr>normalization_steps_i64 = 1, running_mean_f32 = [Fin 0],
          running_variance_f32 = [Fin 1]\<rparr>
       [[Fin (2 ^ 70)], [Fin (2 ^ 70)], [Fin (3 * 2 ^ 71)]]
     = Inr \<lparr>normalization_steps_i64 = 4, running_mean_f32 = [Fin (2 ^ 71)],
            running_variance_f32 = [NaN]\<rparr>
   \<and> \<not> f32_le (Fin 0) NaN
   \<and> update_f32 id
       \<lparr>normalization_steps_i64 = 2 ^ 63 - 1, running_mean_f32 = [Fin 0],
          running_variance_f32 = [Fin 1]\<rparr>
       [[Fin 0]]
     = Inr \<lparr>normalization_steps_i64 = - (2 ^ 63), running_mean_f32 = [Fin 0],
            running_variance_f32 = [Fin 1]\<rparr>
   \<and> \<not> (1::int) \<le> - (2 ^ 63)"
  by (simp add: Normalizer_init_f32_def update_f32_def broadcastable_def expand_def bsub_f32_def
      bdiv_scalar_f32_def bmul_f32_def sum0_f32_def vadd_f32_def fsub_def fl_def f32_max_def
      wrap64_def inf_of_sign_def Let_def)

text \<open>
  Claim C3, amended. A freshly constructed normalizer has step count 1, an all-zero mean
  and an all-one sum of squared deviations, in either arithmetic. In exact arithmetic
  every \<^verbatim>\<open>update\<close> that returns keeps the invariant: the step count stays at least 1 and
  does not decrease, and no entry of the sum of squared deviations decreases (what is
  added to it is not negative, and nothing is clamped), so every entry stays \<open>\<ge> 0\<close>. In
  the program's arithmetic the new step count is the old one plus the number of rows, at
  least 1 and not smaller than before, as long as that sum stays below \<open>2^63\<close>; nothing is
  promised of the float entries, which overflow can turn into NaN.
\<close>

theorem stats_invariant_without_overflow:
  "(Normalizer_init vec_obs_size = Inr s0 \<longrightarrow>
      normalization_steps s0 = 1
      \<and> running_mean s0 = replicate (nat vec_obs_size) 0
      \<and> running_variance s0 = replicate (nat vec_obs_size) 1
      \<and> stats_inv s0)
   \<and> (stats_inv s \<and> update s batch = Inr s' \<longrightarrow>
        stats_inv s'
        \<and> normalization_steps s \<le> normalization_steps s'
        \<and> (\<forall>j<obs_size s. running_variance s ! j \<le> running_variance s' ! j))
   \<and> (Normalizer_init_f32 vec_obs_size = Inr t0 \<longrightarrow>
        normalization_steps_i64 t0 = 1
        \<and> running_mean_f32 t0 = replicate (nat vec_obs_size) (Fin 0)
        \<and> running_variance_f32 t0 = replicate (nat vec_obs_size) (Fin 1))
   \<and> (1 \<le> normalization_steps_i64 t
        \<and> normalization_steps_i64 t + int (length batch32) < 2 ^ 63
        \<and> update_f32 rnd t batch32 = Inr t' \<longrightarrow>
        normalization_steps_i64 t' = normalization_steps_i64 t + int (length batch32)
        \<and> 1 \<le> normalization_steps_i64 t'
        \<and> normalization_steps_i64 t \<le> normalization_steps_i64 t')"
proof -
  have "normalization_steps_i64 t' = normalization_steps_i64 t + int (length batch32)"
    if "1 \<le> normalization_steps_i64 t"
      "normalization_steps_i64 t + int (length batch32) < 2 ^ 63"
      "update_f32 rnd t batch32 = Inr t'"
  proof -
    have "wrap64 (normalization_steps_i64 t + int (length batch32)) =
        normalization_steps_i64 t + int (length batch32)"
      using that(1,2) by (intro wrap64_id) simp_all
    with update_f32_steps [OF that(3)] show ?thesis
      by simp
  qed
  moreover have "normalization_steps_i64 t0 = 1
        \<and> running_mean_f32 t0 = replicate (nat vec_obs_size) (Fin 0)
        \<and> running_variance_f32 t0 = replicate (nat vec_obs_size) (Fin 1)"
    if "Normalizer_init_f32 vec_obs_size = Inr t0"
    using that by (auto simp: Normalizer_init_f32_def split: if_splits)
  ultimately show ?thesis
    using stats_invariant_exact [of vec_obs_size s0 s batch s'] by auto
qed

theorem stats_invariant_without_overflow_witness:
  "Normalizer_init 2 = Inr \<lparr>normalization_steps = 1, running_mean = [0, 0], running_variance = [1, 1]\<rparr>
   \<and> stats_inv \<lparr>normalization_steps = 1, running_mean = [0, 0], running_variance = [1, 1]\<rparr>
   \<and> update \<lparr>normalization_steps = 1, running_mean = [0, 0], running_variance = [1, 1]\<rparr>
        [[1, 2], [3, 4]]
       = Inr \<lparr>normalization_steps = 3, running_mean = [4 / 3, 2], running_variance = [17 / 3, 9]\<rparr>
   \<and> stats_inv \<lparr>normalization_steps = 3, running_mean = [4 / 3, 2], running_variance = [17 / 3, 9]\<rparr>
   \<and> update_f32 id
        \<lparr>normalization_steps_i64 = 1, running_mean_f32 = [Fin 0], running_variance_f32 = [Fin 1]\<rparr>
        [[Fin 2], [Fin 4], [Fin 6]]
       = Inr \<lparr>normalization_steps_i64 = 4, running_mean_f32 = [Fin 3],
              running_variance_f32 = [Fin 21]\<rparr>
   \<and> (1::int) + int (length [[Fin 2], [Fin 4], [Fin 6]]) < 2 ^ 63"
proof -
  define s0 :: normalizer where
    "s0 = \<lparr>normalization_steps = 1, running_mean = [0, 0], running_variance = [1, 1]\<rparr>"
  define s1 :: normalizer where
    "s1 = \<lparr>normalization_steps = 3, running_mean = [4 / 3, 2], running_variance = [17 / 3, 9]\<rparr>"
  define t0 :: normalizer_f32 where
    "t0 = \<lparr>normalization_steps_i64 = 1, running_mean_f32 = [Fin 0],
           running_variance_f32 = [Fin 1]\<rparr>"
  define t1 :: normalizer_f32 where
    "t1 = \<lparr>normalization_steps_i64 = 4, running_mean_f32 = [Fin 3],
           running_variance_f32 = [Fin 21]\<rparr>"
  have i: "Normalizer_init 2 = Inr s0"
    by (simp add: Normalizer_init_def s0_def numeral_2_eq_2)
  have u: "update s0 [[1, 2], [3, 4]] = Inr s1"
    by (simp add: update_def s0_def s1_def broadcastable_def expand_def bsub_def bdiv_scalar_def
        bmul_def sum0_def vadd_def numeral_2_eq_2)
  have u32: "update_f32 id t0 [[Fin 2], [Fin 4], [Fin 6]] = Inr t1"
    by (simp add: update_f32_def t0_def t1_def broadcastable_def expand_def bsub_f32_def
        bdiv_scalar_f32_def bmul_f32_def sum0_f32_def vadd_f32_def fsub_def fl_def f32_max_def
        wrap64_def Let_def)
  have n: "normalization_steps_i64 t0 + int (length [[Fin 2], [Fin 4], [Fin 6]]) < 2 ^ 63"
    by (simp add: t0_def)
  from stats_invariant_without_overflow
    [where vec_obs_size = 2 and ?s0.0 = s0 and s = s0 and batch = "[[1, 2], [3, 4]]" and s' = s1
       and t = t0 and ?batch32.0 = "[[Fin 2], [Fin 4], [Fin 6]]" and rnd = id and t' = t1]
    i u u32 n
  have "stats_inv s0" "stats_inv s1"
    "normalization_steps_i64 t1 = normalization_steps_i64 t0 + int (length [[Fin 2], [Fin 4], [Fin 6]])"
    by (simp_all add: t0_def)
  with i u u32 n show ?thesis
    by (simp add: s0_def s1_def t0_def t1_def)
qed

text \<open>
  Claim C2, as stated: in every reachable state every element of the output of
  \<^verbatim>\<open>forward\<close> lies in \<open>[-5, 5]\<close>. In the program's arithmetic it does not. The state reached
  from a fresh normalizer of one feature by one \<^verbatim>\<open>update\<close> with the finite samples \<open>2^70\<close>,
  \<open>2^70\<close> and \<open>3 * 2^71\<close> has NaN as its sum of squared deviations (the products overflow
  to \<open>-inf\<close> and \<open>+inf\<close>); there \<^verbatim>\<open>forward\<close> of the finite input \<open>0\<close> divides by the square
  root of NaN and returns NaN, which the clamp passes on and which is not between \<open>-5\<close>
  and \<open>5\<close>. Every finite number of this run is a 32-bit float, so \<open>rnd\<close> is the identity.
\<close>

theorem forward_returns_nan:
  "Normalizer_init_f32 1 =
     Inr \<lparr>normalization_steps_i64 = 1, running_mean_f32 = [Fin 0],
          running_variance_f32 = [Fin 1]\<rparr>
   \<and> update_f32 id
       \<lparr>normalization_steps_i64 = 1, running_mean_f32 = [Fin 0],
          running_variance_f32 = [Fin 1]\<rparr>
       [[Fin (2 ^ 70)], [Fin (2 ^ 70)], [Fin (3 * 2 ^ 71)]]
     = Inr \<lparr>normalization_steps_i64 = 4, running_mean_f32 = [Fin (2 ^ 71)],
            running_variance_f32 = [NaN]\<rparr>
   \<and> forward_f32 id
       \<lparr>normalization_steps_i64 = 4, running_mean_f32 = [Fin (2 ^ 71)],
          running_variance_f32 = [NaN]\<rparr>
       [[Fin 0]]
     = Inr ([[NaN]],
            \<lparr>normalization_steps_i64 = 4, running_mean_f32 = [Fin (2 ^ 71)],
               running_variance_f32 = [NaN]\<rparr>)
   \<and> \<not> (f32_le (Fin (- 5)) NaN \<and> f32_le NaN (Fin 5))"
  by (simp add: Normalizer_init_f32_def update_f32_def forward_f32_def normalized_state_f32_def
      vdiv_scalar_f32_def broadcastable_def expand_def bsub_f32_def bdiv_scalar_f32_def
      bmul_f32_def sum0_f32_def vadd_f32_def fsub_def fl_def f32_max_def wrap64_def
      inf_of_sign_def Let_def)

text \<open>
  Claim C2, amended. For every state and every batch of the state's width, \<^verbatim>\<open>forward\<close>
  returns, element by element, \<open>clamp((x - mean) / sqrt(sumSqDev / stepCount), -5, 5)\<close>
  and leaves the object as it was. In the program's arithmetic every element of the
  output is NaN or lies in \<open>[-5, 5]\<close>, and it is NaN exactly when the quotient is NaN. In
  exact arithmetic, in every reachable state, the divisor is positive and every element
  lies in \<open>[-5, 5]\<close>.
\<close>

theorem forward_clamps:
  "(buffers32_ok s32 \<and> batch_shaped (length (running_mean_f32 s32)) inputs32 \<longrightarrow>
      (\<exists>out32. forward_f32 rnd s32 inputs32 = Inr (out32, s32)
         \<and> length out32 = length inputs32
         \<and> (\<forall>i<length inputs32. length (out32 ! i) = length (running_mean_f32 s32)
              \<and> (\<forall>j<length (running_mean_f32 s32).
                    out32 ! i ! j = fclamp (normalized_f32 rnd s32 j (inputs32 ! i ! j)) (- 5) 5
                    \<and> (out32 ! i ! j = NaN
                          \<longleftrightarrow> normalized_f32 rnd s32 j (inputs32 ! i ! j) = NaN)
                    \<and> (out32 ! i ! j = NaN
                          \<or> (f32_le (Fin (- 5)) (out32 ! i ! j)
                               \<and> f32_le (out32 ! i ! j) (Fin 5)))))))
   \<and> (reachable s \<and> batch_shaped (obs_size s) inputs \<longrightarrow>
        (\<exists>out. forward s inputs = Inr (out, s) \<and> length out = length inputs
           \<and> (\<forall>i<length inputs. length (out ! i) = obs_size s
                \<and> (\<forall>j<obs_size s.
                      0 < sqrt (running_variance s ! j / real_of_int (normalization_steps s))
                      \<and> out ! i ! j =
                          clamp ((inputs ! i ! j - running_mean s ! j)
                                   / sqrt (running_variance s ! j
                                             / real_of_int (normalization_steps s)))
                            (- 5) 5
                      \<and> - 5 \<le> out ! i ! j \<and> out ! i ! j \<le> 5))))"
proof (intro conjI impI)
  assume "buffers32_ok s32 \<and> batch_shaped (length (running_mean_f32 s32)) inputs32"
  then have h: "buffers32_ok s32" "batch_shaped (length (running_mean_f32 s32)) inputs32"
    by simp_all
  from normalized_state_f32_nth [OF h, of rnd] obtain out32 where
    out: "normalized_state_f32 rnd s32 inputs32 = Inr out32" "length out32 = length inputs32"
    "\<And>i. i < length inputs32 \<Longrightarrow> length (out32 ! i) = length (running_mean_f32 s32)"
    "\<And>i j. i < length inputs32 \<Longrightarrow> j < length (running_mean_f32 s32) \<Longrightarrow>
        out32 ! i ! j = fclamp (normalized_f32 rnd s32 j (inputs32 ! i ! j)) (- 5) 5"
    by blast
  have "forward_f32 rnd s32 inputs32 = Inr (out32, s32)"
    by (simp add: forward_f32_def out(1))
  moreover have "out32 ! i ! j = fclamp (normalized_f32 rnd s32 j (inputs32 ! i ! j)) (- 5) 5
      \<and> (out32 ! i ! j = NaN \<longleftrightarrow> normalized_f32 rnd s32 j (inputs32 ! i ! j) = NaN)
      \<and> (out32 ! i ! j = NaN
            \<or> (f32_le (Fin (- 5)) (out32 ! i ! j) \<and> f32_le (out32 ! i ! j) (Fin 5)))"
    if "i < length inputs32" "j < length (running_mean_f32 s32)" for i j
    using fclamp_range [of "- 5" 5 "normalized_f32 rnd s32 j (inputs32 ! i ! j)"]
    by (simp add: out(4) [OF that] fclamp_NaN_iff)
  ultimately show "\<exists>out32. forward_f32 rnd s32 inputs32 = Inr (out32, s32)
         \<and> length out32 = length inputs32
         \<and> (\<forall>i<length inputs32. length (out32 ! i) = length (running_mean_f32 s32)
              \<and> (\<forall>j<length (running_mean_f32 s32).
                    out32 ! i ! j = fclamp (normalized_f32 rnd s32 j (inputs32 ! i ! j)) (- 5) 5
                    \<and> (out32 ! i ! j = NaN
                          \<longleftrightarrow> normalized_f32 rnd s32 j (inputs32 ! i ! j) = NaN)
                    \<and> (out32 ! i ! j = NaN
                          \<or> (f32_le (Fin (- 5)) (out32 ! i ! j)
                               \<and> f32_le (out32 ! i ! j) (Fin 5)))))"
    using out(2,3) by blast
next
  assume "reachable s \<and> batch_shaped (obs_size s) inputs"
  then show "\<exists>out. forward s inputs = Inr (out, s) \<and> length out = length inputs
           \<and> (\<forall>i<length inputs. length (out ! i) = obs_size s
                \<and> (\<forall>j<obs_size s.
                      0 < sqrt (running_variance s ! j / real_of_int (normalization_steps s))
                      \<and> out ! i ! j =
                          clamp ((inputs ! i ! j - running_mean s ! j)
                                   / sqrt (running_variance s ! j
                                             / real_of_int (normalization_steps s)))
                            (- 5) 5
                      \<and> - 5 \<le> out ! i ! j \<and> out ! i ! j \<le> 5))"
    using forward_exact [of s inputs] by simp
qed

theorem forward_clamps_witness:
  "(\<exists>out32. forward_f32 id
               \<lparr>normalization_steps_i64 = 4, running_mean_f32 = [Fin 2, Fin 0],
                  running_variance_f32 = [Fin 16, NaN]\<rparr>
               [[Fin 20, Fin 1]]
             = Inr (out32,
                    \<lparr>normalization_steps_i64 = 4, running_mean_f32 = [Fin 2, Fin 0],
                       running_variance_f32 = [Fin 16, NaN]\<rparr>)
        \<and> out32 ! 0 ! 0 = Fin 5 \<and> out32 ! 0 ! 1 = NaN)
   \<and> (\<exists>out. forward \<lparr>normalization_steps = 1, running_mean = [0, 0], running_variance = [1, 1]\<rparr>
                [[3, - 7]]
              = Inr (out, \<lparr>normalization_steps = 1, running_mean = [0, 0],
                            running_variance = [1, 1]\<rparr>)
        \<and> out ! 0 ! 0 = 3 \<and> out ! 0 ! 1 = - 5)"
proof -
  define t :: normalizer_f32 where
    "t = \<lparr>normalization_steps_i64 = 4, running_mean_f32 = [Fin 2, Fin 0],
          running_variance_f32 = [Fin 16, NaN]\<rparr>"
  define s0 :: normalizer where
    "s0 = \<lparr>normalization_steps = 1, running_mean = [0, 0], running_variance = [1, 1]\<rparr>"
  have ht: "buffers32_ok t \<and> batch_shaped (length (running_mean_f32 t)) [[Fin 20, Fin 1]]"
    by (simp add: t_def buffers32_ok_def)
  have "Normalizer_init 2 = Inr s0"
    by (simp add: Normalizer_init_def s0_def numeral_2_eq_2)
  then have "reachable s0"
    by (rule reachable_init)
  then have hs: "reachable s0 \<and> batch_shaped (obs_size s0) [[3, - 7]]"
    by (simp add: s0_def obs_size_def)
  note inst = forward_clamps
    [where ?s32.0 = t and ?inputs32.0 = "[[Fin 20, Fin 1]]" and rnd = id
       and s = s0 and inputs = "[[3, - 7]]"]
  from inst ht obtain out32 where
    o32: "forward_f32 id t [[Fin 20, Fin 1]] = Inr (out32, t)"
    "\<forall>i<length [[Fin 20, Fin 1]]. \<forall>j<length (running_mean_f32 t).
       out32 ! i ! j = fclamp (normalized_f32 id t j ([[Fin 20, Fin 1]] ! i ! j)) (- 5) 5"
    by blast
  have v32: "out32 ! 0 ! 0 = Fin 5" "out32 ! 0 ! 1 = NaN"
    using o32(2) by (simp_all add: t_def normalized_f32_def fsub_def fl_def f32_max_def)
  from inst hs obtain out where
    o: "forward s0 [[3, - 7]] = Inr (out, s0)"
    "\<forall>i<length [[3, - 7 :: real]]. \<forall>j<obs_size s0. out ! i ! j =
       clamp (([[3, - 7]] ! i ! j - running_mean s0 ! j)
                / sqrt (running_variance s0 ! j / real_of_int (normalization_steps s0))) (- 5) 5"
    by blast
  have v: "out ! 0 ! 0 = 3" "out ! 0 ! 1 = - 5"
    using o(2) by (simp_all add: s0_def obs_size_def clamp_def)
  from o32(1) v32 o(1) v show ?thesis
    by (auto simp: t_def s0_def)
qed

end
